theory Spec2Isabelle
  imports Main "HOL-Library.Word"
begin

unbundle bit_operations_syntax

section \<open>The flat file system of fs.c\<close>

text \<open>
  fs.c keeps a superblock, an inode table and a block bitmap in process globals and stores
  file contents in the blocks of one disk file. This theory embeds its functions one by
  one: the globals and the disk files form a record that every function takes and returns,
  each early \<^verbatim>\<open>return\<close> is a branch, each \<^verbatim>\<open>for\<close> loop is a recursive function, and the
  places where the C code would leave defined behaviour are values of the type \<open>fault\<close>.
\<close>

subsection \<open>The constants of fs.h\<close>

text \<open>
  fs.c includes fs.h for \<^verbatim>\<open>MAX_FILES\<close>, \<^verbatim>\<open>MAX_FILENAME\<close>, \<^verbatim>\<open>MAX_BLOCKS\<close>, \<^verbatim>\<open>BLOCK_SIZE\<close>
  and \<^verbatim>\<open>MAX_DIRECT_BLOCKS\<close>. Every function of the embedding takes them as a parameter.
\<close>

record config =
  MAX_FILES :: nat
  MAX_FILENAME :: nat
  MAX_BLOCKS :: nat
  BLOCK_SIZE :: nat
  MAX_DIRECT_BLOCKS :: nat

text \<open>
  What fs.c needs of the constants for its own array accesses to be in range and its
  arithmetic to stay within C's \<^verbatim>\<open>int\<close>: the bitmap \<^verbatim>\<open>block_bitmap[BLOCK_SIZE]\<close> holds one bit
  for each of the \<^verbatim>\<open>MAX_BLOCKS\<close> blocks, ten blocks are metadata, a name buffer has room
  for its terminator, and the byte offsets \<^verbatim>\<open>block_idx * BLOCK_SIZE\<close> and the sum
  \<^verbatim>\<open>size + BLOCK_SIZE - 1\<close> for an accepted size are below \<open>2^31\<close>. Under these bounds no
  operation of fs.c on sizes, offsets and indices wraps, and they are modelled by \<open>int\<close>
  and \<open>nat\<close>.
\<close>

definition wf_config :: "config \<Rightarrow> bool" where
  "wf_config cfg \<longleftrightarrow>
     0 < BLOCK_SIZE cfg \<and> 10 \<le> MAX_BLOCKS cfg \<and> MAX_BLOCKS cfg \<le> 8 * BLOCK_SIZE cfg
     \<and> 0 < MAX_FILENAME cfg
     \<and> MAX_BLOCKS cfg * BLOCK_SIZE cfg < 2 ^ 31
     \<and> (MAX_FILES cfg + 1) * BLOCK_SIZE cfg < 2 ^ 31"

text \<open>
  Modelled from the spec: fs.h is not among the sources. The tests speak of 4KB blocks, of
  a largest file of 48KB = 12 blocks, and of names of at most 28 bytes; the spec places the
  bitmap in one block and the inode table in blocks 2 to 9. \<^verbatim>\<open>MAX_FILES\<close> = 256 and
  \<^verbatim>\<open>MAX_BLOCKS\<close> = 2560 are values that fit this layout (the tests create 200 files and
  write no more than 1MB). No theorem below depends on these values; they serve as the
  concrete instance at which the theorems are evaluated.
\<close>

definition fs_h :: config where
  "fs_h = \<lparr>MAX_FILES = 256, MAX_FILENAME = 28, MAX_BLOCKS = 2560, BLOCK_SIZE = 4096,
           MAX_DIRECT_BLOCKS = 12\<rparr>"

subsection \<open>Data model\<close>

type_synonym byte = "8 word"

record superblock =
  total_blocks :: int
  block_size :: int
  free_blocks :: int
  total_inodes :: int
  free_inodes :: int

text \<open>
  An inode. \<open>name\<close> is the content of the C buffer \<^verbatim>\<open>name[MAX_FILENAME]\<close> up to its first
  NUL; \<open>blocks\<close> is the array \<^verbatim>\<open>blocks[MAX_DIRECT_BLOCKS]\<close>, 0 meaning no block.
\<close>

record inode =
  used :: bool
  name :: string
  size_bytes :: int
  blocks :: "nat list"

text \<open>
  A disk file. The three metadata regions are kept as the values that
  \<^verbatim>\<open>write(fd, &sb, sizeof(sb))\<close> and its siblings store and that the matching \<^verbatim>\<open>read\<close>
  calls of fs_mount load again; \<open>img_sb = None\<close> is a file shorter than a superblock,
  and a bitmap or table shorter than its region is a file that ends there. The data region
  is kept block by block: \<open>img_data b\<close> holds the bytes of block \<open>b\<close> present in the file (a
  full block everywhere fs_format and fs_write have written). The calls of \<^verbatim>\<open>lseek\<close>,
  \<^verbatim>\<open>read\<close> and \<^verbatim>\<open>write\<close> on an open file are taken to succeed, as the code takes them
  to (it ignores their results, except in fs_mount, where a short read is a short region,
  and in fs_read, whose branch for a failed read is therefore absent).
\<close>

record image =
  img_sb :: "superblock option"
  img_bitmap :: "byte list"
  img_inodes :: "inode list"
  img_data :: "nat \<Rightarrow> byte list"

text \<open>
  The globals of fs.c (\<open>disk_fd = None\<close> is \<^verbatim>\<open>disk_fd == -1\<close>, otherwise the open file is
  named by its path), the disk files by path, and the paths on which \<^verbatim>\<open>open\<close> succeeds.
\<close>

record world =
  sb :: superblock
  inode_table :: "inode list"
  block_bitmap :: "byte list"
  disk_fd :: "string option"
  files :: "string \<Rightarrow> image option"
  can_open :: "string \<Rightarrow> bool"

text \<open>
  Behaviour that C leaves undefined, or that lies outside the typed disk image:
  a store to \<^verbatim>\<open>blocks[i]\<close> with \<open>i \<ge> MAX_DIRECT_BLOCKS\<close>; an access to \<^verbatim>\<open>block_bitmap\<close>
  past its end; the shift \<^verbatim>\<open>1 << -1\<close> that mark_block_used(-1) performs when
  find_free_block found nothing; a read past the end of the caller's data; a read of file
  data from one of the metadata blocks 1 to 9.
\<close>

datatype fault =
  BlocksIndexOutOfBounds
  | BitmapIndexOutOfBounds
  | NegativeShift
  | DataBufferOverread
  | MetadataBlockRead

subsection \<open>Helpers\<close>

text \<open>\<^verbatim>\<open>strncmp(s1, s2, n) == 0\<close> on NUL-free contents: the first \<open>n\<close> bytes agree.\<close>

definition strncmp_eq :: "string \<Rightarrow> string \<Rightarrow> nat \<Rightarrow> bool" where
  "strncmp_eq s1 s2 n \<longleftrightarrow> take n s1 = take n s2"

text \<open>find_inode: the loop over the \<^verbatim>\<open>MAX_FILES\<close> entries of the table, \<open>i\<close> the index.\<close>

fun find_inode_from :: "config \<Rightarrow> inode list \<Rightarrow> string \<Rightarrow> nat \<Rightarrow> nat option" where
  "find_inode_from cfg [] filename i = None"
| "find_inode_from cfg (ino # rest) filename i =
     (if used ino \<and> strncmp_eq (name ino) filename (MAX_FILENAME cfg) then Some i
      else find_inode_from cfg rest filename (Suc i))"

definition find_inode :: "config \<Rightarrow> world \<Rightarrow> string \<Rightarrow> nat option" where
  "find_inode cfg w filename = find_inode_from cfg (inode_table w) filename 0"

fun find_free_inode_from :: "inode list \<Rightarrow> nat \<Rightarrow> nat option" where
  "find_free_inode_from [] i = None"
| "find_free_inode_from (ino # rest) i =
     (if \<not> used ino then Some i else find_free_inode_from rest (Suc i))"

definition find_free_inode :: "world \<Rightarrow> nat option" where
  "find_free_inode w = find_free_inode_from (inode_table w) 0"

text \<open>The bitmap test \<^verbatim>\<open>block_bitmap[i / 8] & (1 << (i % 8))\<close>.\<close>

definition bit_is_set :: "byte list \<Rightarrow> nat \<Rightarrow> bool" where
  "bit_is_set bm i \<longleftrightarrow> bm ! (i div 8) AND push_bit (i mod 8) 1 \<noteq> 0"

function find_free_block_from :: "config \<Rightarrow> byte list \<Rightarrow> nat \<Rightarrow> nat option" where
  "find_free_block_from cfg bm i =
     (if i < MAX_BLOCKS cfg then
        (if \<not> bit_is_set bm i then Some i else find_free_block_from cfg bm (Suc i))
      else None)"
  by pat_completeness auto
termination
  by (relation "measure (\<lambda>(cfg, bm, i). MAX_BLOCKS cfg - i)") auto

declare find_free_block_from.simps [simp del]

definition find_free_block :: "config \<Rightarrow> byte list \<Rightarrow> nat option" where
  "find_free_block cfg bm = find_free_block_from cfg bm 10"

definition mark_block_used :: "byte list \<Rightarrow> nat \<Rightarrow> byte list" where
  "mark_block_used bm block_num =
     bm[block_num div 8 := bm ! (block_num div 8) OR push_bit (block_num mod 8) 1]"

definition mark_block_free :: "byte list \<Rightarrow> nat \<Rightarrow> byte list" where
  "mark_block_free bm block_num =
     bm[block_num div 8 := bm ! (block_num div 8) AND NOT (push_bit (block_num mod 8) 1)]"

subsection \<open>fs_format, fs_mount, fs_unmount\<close>

definition empty_inode :: "config \<Rightarrow> inode" where
  "empty_inode cfg =
     \<lparr>used = False, name = [], size_bytes = 0, blocks = replicate (MAX_DIRECT_BLOCKS cfg) 0\<rparr>"

definition fresh_superblock :: "config \<Rightarrow> superblock" where
  "fresh_superblock cfg =
     \<lparr>total_blocks = int (MAX_BLOCKS cfg), block_size = int (BLOCK_SIZE cfg),
      free_blocks = int (MAX_BLOCKS cfg) - 10, total_inodes = int (MAX_FILES cfg),
      free_inodes = int (MAX_FILES cfg)\<rparr>"

definition fresh_bitmap :: "config \<Rightarrow> byte list" where
  "fresh_bitmap cfg = fold (\<lambda>i bm. mark_block_used bm i) [0..<10] (replicate (BLOCK_SIZE cfg) 0)"

text \<open>
  fs_format opens (creating and truncating) the file, resets the three globals whether or
  not a disk is mounted, and writes them and \<^verbatim>\<open>MAX_BLOCKS - 10\<close> zero blocks to the file.
\<close>

definition fs_format :: "config \<Rightarrow> string \<Rightarrow> world \<Rightarrow> int \<times> world" where
  "fs_format cfg disk_path w =
     (if \<not> can_open w disk_path then (-1, w)
      else
        let sb' = fresh_superblock cfg;
            bm = fresh_bitmap cfg;
            tbl = replicate (MAX_FILES cfg) (empty_inode cfg);
            img = \<lparr>img_sb = Some sb', img_bitmap = bm, img_inodes = tbl,
                   img_data = (\<lambda>b. if 10 \<le> b \<and> b < MAX_BLOCKS cfg
                                     then replicate (BLOCK_SIZE cfg) 0 else [])\<rparr>
        in (0, w\<lparr>sb := sb', block_bitmap := bm, inode_table := tbl,
                  files := (files w)(disk_path \<mapsto> img)\<rparr>))"

text \<open>
  fs_mount. A read that falls short has still stored the bytes it got: the bitmap keeps its
  old tail, the table its old entries past the records read. A short read of the superblock
  likewise overwrites the first bytes of \<^verbatim>\<open>sb\<close>; the typed image holds no part of a
  superblock, so on that branch, where fs_mount fails, the embedding leaves \<open>sb\<close> as it
  was, and no statement below reads it there. In every failing branch after the open,
  \<^verbatim>\<open>disk_fd\<close> is -1 again.
\<close>

definition fs_mount :: "config \<Rightarrow> string \<Rightarrow> world \<Rightarrow> int \<times> world" where
  "fs_mount cfg disk_path w =
     (if disk_fd w \<noteq> None then (-1, w)
      else if \<not> can_open w disk_path then (-1, w)
      else case files w disk_path of
        None \<Rightarrow> (-1, w)
      | Some img \<Rightarrow>
         (case img_sb img of
            None \<Rightarrow> (-1, w)
          | Some s \<Rightarrow>
             let w1 = w\<lparr>sb := s\<rparr> in
             if total_blocks s \<noteq> int (MAX_BLOCKS cfg) \<or> block_size s \<noteq> int (BLOCK_SIZE cfg)
                \<or> total_inodes s \<noteq> int (MAX_FILES cfg)
             then (-1, w1)
             else
               let bytes = take (BLOCK_SIZE cfg) (img_bitmap img);
                   w2 = w1\<lparr>block_bitmap := bytes @ drop (length bytes) (block_bitmap w1)\<rparr> in
               if length bytes \<noteq> BLOCK_SIZE cfg then (-1, w2)
               else
                 let recs = take (MAX_FILES cfg) (img_inodes img);
                     w3 = w2\<lparr>inode_table := recs @ drop (length recs) (inode_table w2)\<rparr> in
                 if length recs \<noteq> MAX_FILES cfg then (-1, w3)
                 else (0, w3\<lparr>disk_fd := Some disk_path\<rparr>)))"

definition fs_unmount :: "config \<Rightarrow> world \<Rightarrow> world" where
  "fs_unmount cfg w =
     (case disk_fd w of
        None \<Rightarrow> w
      | Some p \<Rightarrow>
          w\<lparr>files := (\<lambda>q. if q = p
                           then map_option (\<lambda>img. img\<lparr>img_sb := Some (sb w),
                                                      img_bitmap := block_bitmap w,
                                                      img_inodes := inode_table w\<rparr>) (files w p)
                           else files w q),
            disk_fd := None\<rparr>)"

subsection \<open>fs_create, fs_delete, fs_list\<close>

definition fs_create :: "config \<Rightarrow> string option \<Rightarrow> world \<Rightarrow> int \<times> world" where
  "fs_create cfg filename w =
     (if disk_fd w = None then (-3, w)
      else case filename of
        None \<Rightarrow> (-3, w)
      | Some fname \<Rightarrow>
          if length fname \<ge> MAX_FILENAME cfg then (-3, w)
          else if find_inode cfg w fname \<noteq> None then (-1, w)
          else (case find_free_inode w of
                  None \<Rightarrow> (-2, w)
                | Some inode_idx \<Rightarrow>
                    (0, w\<lparr>inode_table := (inode_table w)[inode_idx :=
                             \<lparr>used = True, name = take (MAX_FILENAME cfg - 1) fname,
                              size_bytes = 0,
                              blocks = replicate (MAX_DIRECT_BLOCKS cfg) 0\<rparr>],
                          sb := (sb w)\<lparr>free_inodes := free_inodes (sb w) - 1\<rparr>\<rparr>)))"

text \<open>
  The loop that fs_delete and fs_write share: every non-zero pointer of the file is marked
  free in the bitmap and counted back (and set to 0 in the inode, which the callers do for
  the whole array at once).
\<close>

fun free_file_blocks :: "config \<Rightarrow> nat list \<Rightarrow> byte list \<Rightarrow> int \<Rightarrow> fault + (byte list \<times> int)" where
  "free_file_blocks cfg [] bm fb = Inr (bm, fb)"
| "free_file_blocks cfg (b # bs) bm fb =
     (if b \<noteq> 0 then
        (if b div 8 < BLOCK_SIZE cfg then free_file_blocks cfg bs (mark_block_free bm b) (fb + 1)
         else Inl BitmapIndexOutOfBounds)
      else free_file_blocks cfg bs bm fb)"

definition fs_delete :: "config \<Rightarrow> string option \<Rightarrow> world \<Rightarrow> fault + (int \<times> world)" where
  "fs_delete cfg filename w =
     (if disk_fd w = None then Inr (-2, w)
      else case filename of
        None \<Rightarrow> Inr (-3, w)
      | Some fname \<Rightarrow>
          if length fname \<ge> MAX_FILENAME cfg then Inr (-3, w)
          else (case find_inode cfg w fname of
                  None \<Rightarrow> Inr (-1, w)
                | Some inode_idx \<Rightarrow>
                    let target_inode = inode_table w ! inode_idx in
                    (case free_file_blocks cfg (blocks target_inode) (block_bitmap w)
                            (free_blocks (sb w)) of
                       Inl f \<Rightarrow> Inl f
                     | Inr (bm, fb) \<Rightarrow>
                         Inr (0, w\<lparr>block_bitmap := bm,
                                   inode_table := (inode_table w)[inode_idx :=
                                      target_inode\<lparr>blocks := map (\<lambda>_. 0) (blocks target_inode),
                                                   used := False, name := [],
                                                   size_bytes := 0\<rparr>],
                                   sb := (sb w)\<lparr>free_blocks := fb,
                                                free_inodes := free_inodes (sb w) + 1\<rparr>\<rparr>))))"

text \<open>
  fs_list: \<open>filenames\<close> is whether the caller's array is non-null; the result is the return
  value and the names stored in entries 0, 1, ... of the array (each cut to
  \<^verbatim>\<open>MAX_FILENAME - 1\<close> bytes by the terminator that is written over the last byte).
\<close>

fun list_loop :: "config \<Rightarrow> inode list \<Rightarrow> nat \<Rightarrow> string list \<Rightarrow> string list" where
  "list_loop cfg [] max_files acc = acc"
| "list_loop cfg (ino # rest) max_files acc =
     (if length acc < max_files then
        (if used ino
         then list_loop cfg rest max_files (acc @ [take (MAX_FILENAME cfg - 1) (name ino)])
         else list_loop cfg rest max_files acc)
      else acc)"

definition fs_list :: "config \<Rightarrow> bool \<Rightarrow> int \<Rightarrow> world \<Rightarrow> int \<times> string list" where
  "fs_list cfg filenames max_files w =
     (if disk_fd w = None \<or> \<not> filenames \<or> max_files \<le> 0 \<or> max_files > int (MAX_FILES cfg)
      then (-1, [])
      else let names = list_loop cfg (inode_table w) (nat max_files) []
           in (int (length names), names))"

subsection \<open>fs_write and fs_read\<close>

text \<open>The data blocks of the mounted disk file, and their replacement.\<close>

definition disk_data :: "world \<Rightarrow> string \<Rightarrow> nat \<Rightarrow> byte list" where
  "disk_data w p = (case files w p of None \<Rightarrow> (\<lambda>b. []) | Some img \<Rightarrow> img_data img)"

definition set_disk_data :: "world \<Rightarrow> string \<Rightarrow> (nat \<Rightarrow> byte list) \<Rightarrow> string \<Rightarrow> image option" where
  "set_disk_data w p d = (files w)(p := map_option (\<lambda>img. img\<lparr>img_data := d\<rparr>) (files w p))"

text \<open>
  The allocation loop of fs_write, \<open>i\<close> its counter. The loop state is the bitmap, the
  counter \<^verbatim>\<open>sb.free_blocks\<close>, the array \<^verbatim>\<open>target_inode->blocks\<close> and the data blocks of the
  disk. The code does not test the result of find_free_block, and stores to \<^verbatim>\<open>blocks[i]\<close>
  without comparing \<open>i\<close> to \<^verbatim>\<open>MAX_DIRECT_BLOCKS\<close>: both are faults here. A block is written
  in full: \<open>to_write\<close> bytes of the data, then zeros.
\<close>

function alloc_blocks ::
  "config \<Rightarrow> byte list \<Rightarrow> nat \<Rightarrow> nat \<Rightarrow> nat
    \<Rightarrow> byte list \<times> int \<times> nat list \<times> (nat \<Rightarrow> byte list)
    \<Rightarrow> fault + (byte list \<times> int \<times> nat list \<times> (nat \<Rightarrow> byte list))" where
  "alloc_blocks cfg data sz needed_blocks i (bm, fb, blks, d) =
     (if i < needed_blocks then
        (case find_free_block cfg bm of
           None \<Rightarrow> Inl NegativeShift
         | Some block_idx \<Rightarrow>
             if MAX_DIRECT_BLOCKS cfg \<le> i then Inl BlocksIndexOutOfBounds
             else
               let to_write = (if i = needed_blocks - 1 then sz - i * BLOCK_SIZE cfg
                               else BLOCK_SIZE cfg)
               in if length data < i * BLOCK_SIZE cfg + to_write then Inl DataBufferOverread
                  else alloc_blocks cfg data sz needed_blocks (Suc i)
                         (mark_block_used bm block_idx, fb - 1, blks[i := block_idx],
                          d(block_idx := take to_write (drop (i * BLOCK_SIZE cfg) data)
                                          @ replicate (BLOCK_SIZE cfg - to_write) 0)))
      else Inr (bm, fb, blks, d))"
  by pat_completeness auto
termination
  by (relation "measure (\<lambda>(cfg, data, sz, needed_blocks, i, st). needed_blocks - i)") auto

declare alloc_blocks.simps [simp del]

definition needed_blocks_of :: "config \<Rightarrow> int \<Rightarrow> nat" where
  "needed_blocks_of cfg sz = nat ((sz + int (BLOCK_SIZE cfg) - 1) div int (BLOCK_SIZE cfg))"

definition fs_write ::
  "config \<Rightarrow> string option \<Rightarrow> byte list option \<Rightarrow> int \<Rightarrow> world \<Rightarrow> fault + (int \<times> world)" where
  "fs_write cfg filename data sz w =
     (case disk_fd w of
        None \<Rightarrow> Inr (-3, w)
      | Some p \<Rightarrow>
     (case filename of
        None \<Rightarrow> Inr (-3, w)
      | Some fname \<Rightarrow>
     (case data of
        None \<Rightarrow> Inr (-3, w)
      | Some bytes \<Rightarrow>
          if sz \<le> 0 then Inr (-3, w)
          else if length fname \<ge> MAX_FILENAME cfg then Inr (-3, w)
          else if sz > int (MAX_FILES cfg * BLOCK_SIZE cfg) then Inr (-3, w)
          else (case find_inode cfg w fname of
                  None \<Rightarrow> Inr (-1, w)
                | Some inode_idx \<Rightarrow>
                    let target_inode = inode_table w ! inode_idx;
                        needed_blocks = needed_blocks_of cfg sz
                    in
                    if free_blocks (sb w) < int needed_blocks then Inr (-2, w)
                    else
                     (case free_file_blocks cfg (blocks target_inode) (block_bitmap w)
                             (free_blocks (sb w)) of
                        Inl f \<Rightarrow> Inl f
                      | Inr (bm1, fb1) \<Rightarrow>
                         (case alloc_blocks cfg bytes (nat sz) needed_blocks 0
                                 (bm1, fb1, map (\<lambda>_. 0) (blocks target_inode), disk_data w p) of
                            Inl f \<Rightarrow> Inl f
                          | Inr (bm2, fb2, blks2, d2) \<Rightarrow>
                              Inr (0, w\<lparr>block_bitmap := bm2,
                                        sb := (sb w)\<lparr>free_blocks := fb2\<rparr>,
                                        inode_table := (inode_table w)[inode_idx :=
                                          target_inode\<lparr>blocks := take needed_blocks blks2
                                              @ replicate (MAX_DIRECT_BLOCKS cfg - needed_blocks) 0,
                                            size_bytes := sz\<rparr>],
                                        files := set_disk_data w p d2\<rparr>)))))))"

text \<open>
  The loop of fs_read over the block pointers; \<open>acc\<close> holds the bytes stored in the
  caller's buffer so far, its length is \<^verbatim>\<open>bytes_read\<close>. A pointer below 10 other than 0
  would read metadata bytes, which the typed image does not hold.
\<close>

fun read_blocks ::
  "config \<Rightarrow> (nat \<Rightarrow> byte list) \<Rightarrow> nat list \<Rightarrow> nat \<Rightarrow> byte list \<Rightarrow> fault + byte list" where
  "read_blocks cfg d [] bytes_to_read acc = Inr acc"
| "read_blocks cfg d (block_idx # rest) bytes_to_read acc =
     (if length acc < bytes_to_read then
        (if block_idx = 0 then Inr acc
         else if block_idx < 10 then Inl MetadataBlockRead
         else
           let chunk = (if bytes_to_read - length acc < BLOCK_SIZE cfg
                        then bytes_to_read - length acc else BLOCK_SIZE cfg)
           in read_blocks cfg d rest bytes_to_read (acc @ take chunk (d block_idx)))
      else Inr acc)"

text \<open>
  fs_read: \<open>data\<close> is whether the caller's buffer is non-null; the result is the return
  value and the bytes stored at the start of the buffer.
\<close>

definition fs_read ::
  "config \<Rightarrow> string option \<Rightarrow> bool \<Rightarrow> int \<Rightarrow> world \<Rightarrow> fault + (int \<times> byte list)" where
  "fs_read cfg filename data sz w =
     (case disk_fd w of
        None \<Rightarrow> Inr (-3, [])
      | Some p \<Rightarrow>
     (case filename of
        None \<Rightarrow> Inr (-3, [])
      | Some fname \<Rightarrow>
          if \<not> data \<or> sz \<le> 0 then Inr (-3, [])
          else if length fname \<ge> MAX_FILENAME cfg then Inr (-3, [])
          else (case find_inode cfg w fname of
                  None \<Rightarrow> Inr (-1, [])
                | Some inode_idx \<Rightarrow>
                    let target_inode = inode_table w ! inode_idx;
                        bytes_to_read = (if sz > size_bytes target_inode
                                         then size_bytes target_inode else sz)
                    in (case read_blocks cfg (disk_data w p) (blocks target_inode)
                               (nat bytes_to_read) [] of
                          Inl f \<Rightarrow> Inl f
                        | Inr bytes \<Rightarrow> Inr (int (length bytes), bytes)))))"

subsection \<open>Reachable states and what is counted in them\<close>

text \<open>The non-zero block pointers of a used inode, and of all used inodes in slot order.\<close>

definition file_ptrs :: "inode \<Rightarrow> nat list" where
  "file_ptrs ino = (if used ino then filter (\<lambda>b. b \<noteq> 0) (blocks ino) else [])"

definition all_ptrs :: "inode list \<Rightarrow> nat list" where
  "all_ptrs tbl = concat (map file_ptrs tbl)"

text \<open>
  The states reached from a disk that was formatted and then mounted, by calls of the five
  operations and by unmounting and mounting the same disk again, as far as the embedding
  follows them (fs_read and fs_list return no new state: they change none of the globals
  and no disk block). A call that ends in a fault has no state after it. From these states
  a call of fs_write for more than \<^verbatim>\<open>MAX_DIRECT_BLOCKS\<close> blocks that passes the checks ends in
  the fault \<open>BlocksIndexOutOfBounds\<close>; the C code completes that call, and what it leaves in
  memory depends on what lies behind the array \<^verbatim>\<open>blocks\<close>. The relation therefore holds the
  states of the runs without such a write, and nothing is said here of the states after
  one.
\<close>

inductive reachable :: "config \<Rightarrow> world \<Rightarrow> bool" for cfg :: config where
  reach_mount:
    "fs_format cfg path w0 = (0, w1) \<Longrightarrow> fs_mount cfg path w1 = (0, w2) \<Longrightarrow> reachable cfg w2"
| reach_create:
    "reachable cfg w \<Longrightarrow> fs_create cfg filename w = (r, w') \<Longrightarrow> reachable cfg w'"
| reach_delete:
    "reachable cfg w \<Longrightarrow> fs_delete cfg filename w = Inr (r, w') \<Longrightarrow> reachable cfg w'"
| reach_write:
    "reachable cfg w \<Longrightarrow> fs_write cfg filename data sz w = Inr (r, w') \<Longrightarrow> reachable cfg w'"
| reach_read:
    "reachable cfg w \<Longrightarrow> fs_read cfg filename buf sz w = Inr (r, bytes) \<Longrightarrow> reachable cfg w"
| reach_list:
    "reachable cfg w \<Longrightarrow> fs_list cfg buf max_files w = (r, names) \<Longrightarrow> reachable cfg w"
| reach_remount:
    "reachable cfg w \<Longrightarrow> disk_fd w = Some p \<Longrightarrow> fs_mount cfg p (fs_unmount cfg w) = (0, w')
       \<Longrightarrow> reachable cfg w'"

text \<open>
  The invariant behind the counters: the arrays have their C sizes, the pointers of the
  used inodes are pairwise different data blocks, they are exactly the data blocks whose
  bit is set, the two counters count the free blocks and the free inodes, and the mounted
  disk file exists.
\<close>

definition core_inv :: "config \<Rightarrow> inode list \<Rightarrow> byte list \<Rightarrow> int \<Rightarrow> bool" where
  "core_inv cfg tbl bm fb \<longleftrightarrow>
     length tbl = MAX_FILES cfg
     \<and> (\<forall>ino \<in> set tbl. length (blocks ino) = MAX_DIRECT_BLOCKS cfg)
     \<and> length bm = BLOCK_SIZE cfg
     \<and> distinct (all_ptrs tbl)
     \<and> (\<forall>b. 10 \<le> b \<and> b < MAX_BLOCKS cfg \<longrightarrow> (bit_is_set bm b \<longleftrightarrow> b \<in> set (all_ptrs tbl)))
     \<and> (\<forall>b \<in> set (all_ptrs tbl). 10 \<le> b \<and> b < MAX_BLOCKS cfg)
     \<and> fb = int (MAX_BLOCKS cfg) - 10 - int (length (all_ptrs tbl))"

definition fs_inv :: "config \<Rightarrow> world \<Rightarrow> bool" where
  "fs_inv cfg w \<longleftrightarrow>
     (\<exists>p. disk_fd w = Some p \<and> files w p \<noteq> None)
     \<and> core_inv cfg (inode_table w) (block_bitmap w) (free_blocks (sb w))
     \<and> free_inodes (sb w) = int (MAX_FILES cfg) - int (length (filter used (inode_table w)))
     \<and> total_blocks (sb w) = int (MAX_BLOCKS cfg)
     \<and> block_size (sb w) = int (BLOCK_SIZE cfg)
     \<and> total_inodes (sb w) = int (MAX_FILES cfg)"

text \<open>
  The process at its start: the globals as C initialises them, no disk file, and every
  path can be opened.
\<close>

definition boot :: "config \<Rightarrow> world" where
  "boot cfg =
     \<lparr>sb = \<lparr>total_blocks = 0, block_size = 0, free_blocks = 0, total_inodes = 0,
             free_inodes = 0\<rparr>,
      inode_table = replicate (MAX_FILES cfg) (empty_inode cfg),
      block_bitmap = replicate (BLOCK_SIZE cfg) 0,
      disk_fd = None,
      files = (\<lambda>p. None),
      can_open = (\<lambda>p. True)\<rparr>"

text \<open>The state after \<^verbatim>\<open>fs_format("disk.img"); fs_mount("disk.img")\<close> from the start.\<close>

definition mounted0 :: "config \<Rightarrow> world" where
  "mounted0 cfg = snd (fs_mount cfg ''disk.img'' (snd (fs_format cfg ''disk.img'' (boot cfg))))"

text \<open>... and after \<^verbatim>\<open>fs_create("a.txt")\<close> in it.\<close>

definition with_a :: "config \<Rightarrow> world" where
  "with_a cfg = snd (fs_create cfg (Some ''a.txt'') (mounted0 cfg))"

text \<open>
  What fs_list stores: the names of the used inodes in slot order, each as the code copies
  it (\<^verbatim>\<open>strncpy\<close> of \<^verbatim>\<open>MAX_FILENAME\<close> bytes, the last one overwritten by the terminator).
\<close>

definition listed_names :: "config \<Rightarrow> inode list \<Rightarrow> string list" where
  "listed_names cfg tbl = map (\<lambda>ino. take (MAX_FILENAME cfg - 1) (name ino)) (filter used tbl)"

text \<open>
  Two disks at the start of the process: one whose stored superblock has the wrong
  \<^verbatim>\<open>total_blocks\<close>, and one with the right geometry whose stored counters are not those of
  its bitmap and table.
\<close>

definition stale_disk :: "config \<Rightarrow> world" where
  "stale_disk cfg =
     (boot cfg)\<lparr>files := (\<lambda>p. Some
        \<lparr>img_sb = Some ((fresh_superblock cfg)\<lparr>total_blocks := 0\<rparr>),
         img_bitmap = fresh_bitmap cfg,
         img_inodes = replicate (MAX_FILES cfg) (empty_inode cfg),
         img_data = (\<lambda>b. [])\<rparr>)\<rparr>"

definition odd_disk :: "config \<Rightarrow> world" where
  "odd_disk cfg =
     (boot cfg)\<lparr>files := (\<lambda>p. Some
        \<lparr>img_sb = Some ((fresh_superblock cfg)\<lparr>free_blocks := 7, free_inodes := - 1\<rparr>),
         img_bitmap = fresh_bitmap cfg,
         img_inodes = replicate (MAX_FILES cfg) (empty_inode cfg),
         img_data = (\<lambda>b. [])\<rparr>)\<rparr>"

text \<open>
  The content fs_write gives to the \<open>j\<close>-th block of a file of \<open>sz\<close> bytes in \<open>n\<close> blocks:
  a full block of the data, or for the last block the rest of the data and zeros.
\<close>

definition block_image :: "config \<Rightarrow> byte list \<Rightarrow> nat \<Rightarrow> nat \<Rightarrow> nat \<Rightarrow> byte list" where
  "block_image cfg data sz n j =
     (let to_write = (if j = n - 1 then sz - j * BLOCK_SIZE cfg else BLOCK_SIZE cfg)
      in take to_write (drop (j * BLOCK_SIZE cfg) data) @ replicate (BLOCK_SIZE cfg - to_write) 0)"

text \<open>No block is shared: two different used inodes have no non-zero pointer in common.\<close>

definition blocks_disjoint :: "inode list \<Rightarrow> bool" where
  "blocks_disjoint tbl \<longleftrightarrow>
     (\<forall>i < length tbl. \<forall>j < length tbl. i \<noteq> j \<and> used (tbl ! i) \<and> used (tbl ! j)
        \<longrightarrow> (\<forall>b \<in> set (blocks (tbl ! i)). b \<noteq> 0 \<longrightarrow> b \<notin> set (blocks (tbl ! j))))"

text \<open>
  The state after \<^verbatim>\<open>fs_write("a.txt", data, 5000)\<close> in \<open>with_a\<close>, the data being 5000 bytes
  of value 7.
\<close>

definition written :: "config \<Rightarrow> world" where
  "written cfg =
     (case fs_write cfg (Some ''a.txt'') (Some (replicate 5000 7)) 5000 (with_a cfg) of
        Inl f \<Rightarrow> with_a cfg
      | Inr (r, w') \<Rightarrow> w')"

text \<open>The second of these disks mounted, and \<^verbatim>\<open>fs_create("a.txt")\<close> called on it.\<close>

definition odd_a :: "config \<Rightarrow> world" where
  "odd_a cfg = snd (fs_create cfg (Some ''a.txt'') (snd (fs_mount cfg ''disk.img'' (odd_disk cfg))))"

text \<open>
  The two facts about a state that the frame property of fs_write rests on: the arrays
  have the sizes of their C declarations, and every data block that a used inode points
  to is marked used in the bitmap.
\<close>

definition c_arrays :: "config \<Rightarrow> world \<Rightarrow> bool" where
  "c_arrays cfg w \<longleftrightarrow>
     length (block_bitmap w) = BLOCK_SIZE cfg
     \<and> (\<forall>ino \<in> set (inode_table w). length (blocks ino) = MAX_DIRECT_BLOCKS cfg)"





text \<open>
  The state \<open>written\<close> after \<^verbatim>\<open>fs_unmount(); fs_mount("disk.img")\<close>: a session that has
  loaded its superblock, bitmap and table from the disk file.
\<close>

definition remounted :: "config \<Rightarrow> world" where
  "remounted cfg = snd (fs_mount cfg ''disk.img'' (fs_unmount cfg (written cfg)))"

text \<open>
  The number of data blocks that the bitmap marks free: the blocks that find_free_block
  can return.
\<close>

definition free_bits :: "config \<Rightarrow> byte list \<Rightarrow> nat" where
  "free_bits cfg bm = length (filter (\<lambda>c. \<not> bit_is_set bm c) [10..<MAX_BLOCKS cfg])"

text \<open>
  Modelled from the spec: the declaration of the inode record is in fs.h, which is not
  among the sources. fs.c uses its fields \<^verbatim>\<open>name\<close> (\<^verbatim>\<open>MAX_FILENAME\<close> bytes), \<^verbatim>\<open>size\<close>,
  \<^verbatim>\<open>blocks\<close> (\<^verbatim>\<open>MAX_DIRECT_BLOCKS\<close> ints) and \<^verbatim>\<open>used\<close>; with 4-byte ints and the name
  padded to a multiple of 4 a record takes \<open>inode_size\<close> bytes. The spec places the
  superblock (five ints) in block 0, the bitmap in block 1 and the inode table in blocks 2
  to 9. \<open>layout_fits\<close> says that superblock and table fit there, so that in the disk file
  the three regions and the data blocks from block 10 on do not overlap, as the typed
  image takes them not to.
\<close>

definition inode_size :: "config \<Rightarrow> nat" where
  "inode_size cfg = 4 * ((MAX_FILENAME cfg + 3) div 4) + 4 * MAX_DIRECT_BLOCKS cfg + 8"

definition layout_fits :: "config \<Rightarrow> bool" where
  "layout_fits cfg \<longleftrightarrow>
     20 \<le> BLOCK_SIZE cfg \<and> inode_size cfg * MAX_FILES cfg \<le> 8 * BLOCK_SIZE cfg"

text \<open>
  A new process started on the disk files that the state \<open>w\<close> leaves behind: the globals
  are as C initialises them, nothing is mounted, every path can be opened.
\<close>

definition restarted :: "config \<Rightarrow> world \<Rightarrow> world" where
  "restarted cfg w = (boot cfg)\<lparr>files := files w\<rparr>"

section \<open>Properties\<close>

subsection \<open>The lookups\<close>

lemma find_inode_from_None:
  "find_inode_from cfg tbl f i = None \<longleftrightarrow>
     (\<forall>ino \<in> set tbl. \<not> (used ino \<and> strncmp_eq (name ino) f (MAX_FILENAME cfg)))"
  by (induction tbl arbitrary: i) auto

lemma find_inode_from_Some:
  "find_inode_from cfg tbl f i = Some k \<Longrightarrow>
     i \<le> k \<and> k - i < length tbl \<and> used (tbl ! (k - i))
     \<and> strncmp_eq (name (tbl ! (k - i))) f (MAX_FILENAME cfg)
     \<and> (\<forall>j < k - i. \<not> (used (tbl ! j) \<and> strncmp_eq (name (tbl ! j)) f (MAX_FILENAME cfg)))"
proof (induction tbl arbitrary: i)
  case Nil
  then show ?case by simp
next
  case (Cons ino rest)
  show ?case
  proof (cases "used ino \<and> strncmp_eq (name ino) f (MAX_FILENAME cfg)")
    case True
    with Cons.prems show ?thesis by simp
  next
    case False
    with Cons.prems have r: "find_inode_from cfg rest f (Suc i) = Some k" by simp
    from Cons.IH [OF r] have ih: "Suc i \<le> k" "k - Suc i < length rest"
      "used (rest ! (k - Suc i))" "strncmp_eq (name (rest ! (k - Suc i))) f (MAX_FILENAME cfg)"
      "\<forall>j < k - Suc i. \<not> (used (rest ! j) \<and> strncmp_eq (name (rest ! j)) f (MAX_FILENAME cfg))"
      by auto
    from ih(1) have e: "k - i = Suc (k - Suc i)" by simp
    show ?thesis using ih False unfolding e
      by (auto simp: nth_Cons split: nat.splits)
  qed
qed

lemma free_file_blocks_ok:
  "\<forall>b \<in> set bs. b div 8 < BLOCK_SIZE cfg \<Longrightarrow> \<exists>r. free_file_blocks cfg bs bm fb = Inr r"
  by (induction bs arbitrary: bm fb) auto

subsection \<open>The concrete states\<close>

lemma length_mark_block_used [simp]: "length (mark_block_used bm b) = length bm"
  by (simp add: mark_block_used_def)

lemma length_mark_block_free [simp]: "length (mark_block_free bm b) = length bm"
  by (simp add: mark_block_free_def)

lemma length_fresh_bitmap [simp]: "length (fresh_bitmap cfg) = BLOCK_SIZE cfg"
proof -
  have "length (fold (\<lambda>i bm. mark_block_used bm i) xs bm) = length bm" for xs bm
    by (induction xs arbitrary: bm) auto
  then show ?thesis by (simp add: fresh_bitmap_def)
qed

lemma mounted0_eq:
  "mounted0 cfg =
     (boot cfg)\<lparr>sb := fresh_superblock cfg, block_bitmap := fresh_bitmap cfg,
       inode_table := replicate (MAX_FILES cfg) (empty_inode cfg),
       files := (files (boot cfg))(''disk.img'' \<mapsto>
          \<lparr>img_sb = Some (fresh_superblock cfg), img_bitmap = fresh_bitmap cfg,
           img_inodes = replicate (MAX_FILES cfg) (empty_inode cfg),
           img_data = (\<lambda>b. if 10 \<le> b \<and> b < MAX_BLOCKS cfg
                             then replicate (BLOCK_SIZE cfg) 0 else [])\<rparr>),
       disk_fd := Some ''disk.img''\<rparr>"
  by (simp add: mounted0_def fs_format_def fs_mount_def boot_def Let_def fresh_superblock_def)

lemma reachable_mounted0: "reachable cfg (mounted0 cfg)"
proof (rule reach_mount)
  show "fs_format cfg ''disk.img'' (boot cfg) = (0, snd (fs_format cfg ''disk.img'' (boot cfg)))"
    by (simp add: fs_format_def boot_def Let_def)
  show "fs_mount cfg ''disk.img'' (snd (fs_format cfg ''disk.img'' (boot cfg))) = (0, mounted0 cfg)"
    by (simp add: mounted0_def fs_format_def fs_mount_def boot_def Let_def fresh_superblock_def)
qed

lemma find_inode_from_empty [simp]:
  "find_inode_from cfg (replicate n (empty_inode cfg)) f i = None"
  by (induction n arbitrary: i) (auto simp: empty_inode_def)

lemma find_free_inode_from_empty [simp]:
  "0 < n \<Longrightarrow> find_free_inode_from (replicate n (empty_inode cfg)) i = Some i"
  by (cases n) (auto simp: empty_inode_def)

lemma with_a_eq:
  "0 < MAX_FILES cfg \<Longrightarrow> 5 < MAX_FILENAME cfg \<Longrightarrow>
   with_a cfg = (mounted0 cfg)\<lparr>inode_table := (replicate (MAX_FILES cfg) (empty_inode cfg))[0 :=
        \<lparr>used = True, name = ''a.txt'', size_bytes = 0,
         blocks = replicate (MAX_DIRECT_BLOCKS cfg) 0\<rparr>],
      sb := (fresh_superblock cfg)\<lparr>free_inodes := int (MAX_FILES cfg) - 1\<rparr>\<rparr>"
  by (simp add: with_a_def fs_create_def mounted0_eq find_inode_def find_free_inode_def
      fresh_superblock_def)

lemma find_inode_with_a:
  "0 < MAX_FILES cfg \<Longrightarrow> 5 < MAX_FILENAME cfg \<Longrightarrow> find_inode cfg (with_a cfg) ''a.txt'' = Some 0"
  by (cases "MAX_FILES cfg") (simp_all add: with_a_eq find_inode_def strncmp_eq_def)

subsection \<open>Status codes of fs_delete\<close>

text \<open>
  Claim C8. fs_delete returns -2 when no disk is mounted; otherwise -3 when the name is
  null or has \<^verbatim>\<open>MAX_FILENAME\<close> or more bytes; otherwise -1 when no used inode bears the
  name; otherwise, when it returns, 0 (and it does return when the pointers of the table
  lie within the bitmap). The checks apply in this order, and every result other than 0
  leaves the state as it was.
\<close>

theorem fs_delete_status_codes:
  "(disk_fd w = None \<longrightarrow> fs_delete cfg filename w = Inr (-2, w))
   \<and> (disk_fd w \<noteq> None \<and> (filename = None \<or> (\<exists>n. filename = Some n \<and> MAX_FILENAME cfg \<le> length n))
        \<longrightarrow> fs_delete cfg filename w = Inr (-3, w))
   \<and> (\<forall>fname. disk_fd w \<noteq> None \<and> filename = Some fname \<and> length fname < MAX_FILENAME cfg
        \<and> (\<forall>ino \<in> set (inode_table w).
              \<not> (used ino \<and> strncmp_eq (name ino) fname (MAX_FILENAME cfg)))
        \<longrightarrow> fs_delete cfg filename w = Inr (-1, w))
   \<and> (\<forall>fname. disk_fd w \<noteq> None \<and> filename = Some fname \<and> length fname < MAX_FILENAME cfg
        \<and> (\<exists>ino \<in> set (inode_table w).
              used ino \<and> strncmp_eq (name ino) fname (MAX_FILENAME cfg))
        \<and> (\<forall>ino \<in> set (inode_table w). \<forall>b \<in> set (blocks ino). b div 8 < BLOCK_SIZE cfg)
        \<longrightarrow> (\<exists>w'. fs_delete cfg filename w = Inr (0, w')))
   \<and> (\<forall>r w'. fs_delete cfg filename w = Inr (r, w') \<and> r \<noteq> 0 \<longrightarrow> w' = w)"
proof (intro conjI allI impI)
  assume "disk_fd w = None"
  then show "fs_delete cfg filename w = Inr (-2, w)" by (simp add: fs_delete_def)
next
  assume "disk_fd w \<noteq> None \<and> (filename = None \<or> (\<exists>n. filename = Some n \<and> MAX_FILENAME cfg \<le> length n))"
  then show "fs_delete cfg filename w = Inr (-3, w)" by (auto simp: fs_delete_def)
next
  fix fname
  assume a: "disk_fd w \<noteq> None \<and> filename = Some fname \<and> length fname < MAX_FILENAME cfg
        \<and> (\<forall>ino \<in> set (inode_table w).
              \<not> (used ino \<and> strncmp_eq (name ino) fname (MAX_FILENAME cfg)))"
  then have "find_inode cfg w fname = None"
    unfolding find_inode_def find_inode_from_None by blast
  with a show "fs_delete cfg filename w = Inr (-1, w)" by (simp add: fs_delete_def)
next
  fix fname
  assume a: "disk_fd w \<noteq> None \<and> filename = Some fname \<and> length fname < MAX_FILENAME cfg
        \<and> (\<exists>ino \<in> set (inode_table w).
              used ino \<and> strncmp_eq (name ino) fname (MAX_FILENAME cfg))
        \<and> (\<forall>ino \<in> set (inode_table w). \<forall>b \<in> set (blocks ino). b div 8 < BLOCK_SIZE cfg)"
  then have "find_inode cfg w fname \<noteq> None"
    unfolding find_inode_def find_inode_from_None by blast
  then obtain k where k: "find_inode cfg w fname = Some k" by auto
  from find_inode_from_Some [OF k [unfolded find_inode_def]]
  have "k < length (inode_table w)" by simp
  then have "inode_table w ! k \<in> set (inode_table w)" by simp
  with a have "\<forall>b \<in> set (blocks (inode_table w ! k)). b div 8 < BLOCK_SIZE cfg" by blast
  from free_file_blocks_ok [OF this]
  obtain r where "free_file_blocks cfg (blocks (inode_table w ! k)) (block_bitmap w)
      (free_blocks (sb w)) = Inr r" by blast
  with a k show "\<exists>w'. fs_delete cfg filename w = Inr (0, w')"
    by (cases r) (simp add: fs_delete_def Let_def)
next
  fix r w'
  assume "fs_delete cfg filename w = Inr (r, w') \<and> r \<noteq> 0"
  then show "w' = w"
    by (auto simp: fs_delete_def Let_def split: if_splits option.splits sum.splits)
qed


theorem fs_delete_status_codes_witness:
  "fs_delete fs_h (Some ''a.txt'') (boot fs_h) = Inr (-2, boot fs_h)
   \<and> fs_delete fs_h None (mounted0 fs_h) = Inr (-3, mounted0 fs_h)
   \<and> fs_delete fs_h (Some ''b.txt'') (mounted0 fs_h) = Inr (-1, mounted0 fs_h)
   \<and> (\<exists>w'. fs_delete fs_h (Some ''a.txt'') (with_a fs_h) = Inr (0, w'))"
proof -
  have c: "0 < MAX_FILES fs_h" "5 < MAX_FILENAME fs_h" by (simp_all add: fs_h_def)
  have 1: "disk_fd (boot fs_h) = None" by (simp add: boot_def)
  have 2: "disk_fd (mounted0 fs_h) \<noteq> None" by (simp add: mounted0_eq)
  have 3: "\<forall>ino \<in> set (inode_table (mounted0 fs_h)).
             \<not> (used ino \<and> strncmp_eq (name ino) ''b.txt'' (MAX_FILENAME fs_h))"
    by (simp add: mounted0_eq empty_inode_def)
  have 4: "disk_fd (with_a fs_h) \<noteq> None" by (simp add: with_a_eq [OF c] mounted0_eq)
  have 5: "\<exists>ino \<in> set (inode_table (with_a fs_h)).
             used ino \<and> strncmp_eq (name ino) ''a.txt'' (MAX_FILENAME fs_h)"
    using c by (auto simp: with_a_eq [OF c] strncmp_eq_def set_update_memI intro!: bexI [where x = "\<lparr>used = True, name = ''a.txt'', size_bytes = 0,
         blocks = replicate (MAX_DIRECT_BLOCKS fs_h) 0\<rparr>"])
  have 6: "\<forall>ino \<in> set (inode_table (with_a fs_h)). \<forall>b \<in> set (blocks ino). b div 8 < BLOCK_SIZE fs_h"
  proof (intro ballI)
    fix ino b assume "ino \<in> set (inode_table (with_a fs_h))" "b \<in> set (blocks ino)"
    then have "b = 0"
      by (auto simp: with_a_eq [OF c] empty_inode_def dest!: subsetD [OF set_update_subset_insert])
    then show "b div 8 < BLOCK_SIZE fs_h" by (simp add: fs_h_def)
  qed
  have 7: "length ''b.txt'' < MAX_FILENAME fs_h" "length ''a.txt'' < MAX_FILENAME fs_h"
    by (simp_all add: fs_h_def)
  show ?thesis
    using fs_delete_status_codes [of "boot fs_h" fs_h "Some ''a.txt''"]
      fs_delete_status_codes [of "mounted0 fs_h" fs_h None]
      fs_delete_status_codes [of "mounted0 fs_h" fs_h "Some ''b.txt''"]
      fs_delete_status_codes [of "with_a fs_h" fs_h "Some ''a.txt''"]
      1 2 3 4 5 6 7
    by simp
qed


subsection \<open>fs_list\<close>

lemma list_loop_eq:
  "length acc \<le> m \<Longrightarrow> list_loop cfg tbl m acc = take m (acc @ listed_names cfg tbl)"
  by (induction tbl arbitrary: acc) (auto simp: listed_names_def take_Cons')

text \<open>
  Claim C9, as stated, fails: with a null array (or \<open>max_files\<close> outside 1 ..
  \<^verbatim>\<open>MAX_FILES\<close>) fs_list returns -1, not -3.
\<close>

theorem fs_list_counterexample:
  "fs_list fs_h False 1 (mounted0 fs_h) = (-1, [])
   \<and> fst (fs_list fs_h False 1 (mounted0 fs_h)) \<noteq> -3"
  by (simp add: fs_list_def)

text \<open>
  Claim C9, amended. On a mounted disk, with a non-null array and
  \<open>0 < max_files \<le> MAX_FILES\<close>, fs_list stores the names of the used inodes in ascending
  slot order, up to \<open>max_files\<close> of them, and returns how many it stored; with a null array
  or \<open>max_files\<close> outside that range it returns -1 and stores nothing.
\<close>

theorem fs_list_contract:
  "(disk_fd w \<noteq> None \<and> filenames \<and> 0 < max_files \<and> max_files \<le> int (MAX_FILES cfg)
      \<longrightarrow> fs_list cfg filenames max_files w
            = (int (length (take (nat max_files) (listed_names cfg (inode_table w)))),
               take (nat max_files) (listed_names cfg (inode_table w))))
   \<and> (\<not> filenames \<or> max_files \<le> 0 \<or> int (MAX_FILES cfg) < max_files
      \<longrightarrow> fs_list cfg filenames max_files w = (-1, []))"
  by (auto simp: fs_list_def list_loop_eq Let_def)

theorem fs_list_contract_witness:
  "fs_list fs_h True 3 (with_a fs_h) = (1, [''a.txt''])
   \<and> fs_list fs_h True 0 (with_a fs_h) = (-1, [])"
proof -
  have c: "0 < MAX_FILES fs_h" "5 < MAX_FILENAME fs_h" by (simp_all add: fs_h_def)
  have 1: "disk_fd (with_a fs_h) \<noteq> None" by (simp add: with_a_eq [OF c] mounted0_eq)
  have "filter used (inode_table (with_a fs_h))
      = [\<lparr>used = True, name = ''a.txt'', size_bytes = 0, blocks = replicate (MAX_DIRECT_BLOCKS fs_h) 0\<rparr>]"
    using c by (cases "MAX_FILES fs_h") (simp_all add: with_a_eq [OF c] empty_inode_def)
  then have 2: "listed_names fs_h (inode_table (with_a fs_h)) = [''a.txt'']"
    by (simp add: listed_names_def fs_h_def)
  have 3: "(3::int) \<le> int (MAX_FILES fs_h)" by (simp add: fs_h_def)
  show ?thesis
    using fs_list_contract [of "with_a fs_h" True 3 fs_h]
      fs_list_contract [of "with_a fs_h" True 0 fs_h] 1 2 3
    by simp
qed

subsection \<open>fs_mount\<close>

text \<open>
  Claim C7. fs_mount returns -1 and changes nothing when a disk is mounted. From the
  unmounted state it returns -1 and stays unmounted when the file is absent or shorter
  than a superblock, when the stored \<^verbatim>\<open>total_blocks\<close>, \<^verbatim>\<open>block_size\<close> or \<^verbatim>\<open>total_inodes\<close>
  differs from the constant, or when the bitmap or the inode table falls short. When it
  returns 0, the superblock in memory is the stored one, so \<^verbatim>\<open>free_blocks\<close> and
  \<^verbatim>\<open>free_inodes\<close> are the stored values whatever the bitmap and the table hold.
\<close>

theorem fs_mount_fails_closed:
  "(disk_fd w \<noteq> None \<longrightarrow> fs_mount cfg p w = (-1, w))
   \<and> (disk_fd w = None
        \<and> (\<forall>img s. files w p = Some img \<and> img_sb img = Some s
              \<longrightarrow> total_blocks s \<noteq> int (MAX_BLOCKS cfg) \<or> block_size s \<noteq> int (BLOCK_SIZE cfg)
                  \<or> total_inodes s \<noteq> int (MAX_FILES cfg)
                  \<or> length (img_bitmap img) < BLOCK_SIZE cfg
                  \<or> length (img_inodes img) < MAX_FILES cfg)
        \<longrightarrow> fst (fs_mount cfg p w) = -1 \<and> disk_fd (snd (fs_mount cfg p w)) = None)
   \<and> (\<forall>w'. fs_mount cfg p w = (0, w')
        \<longrightarrow> disk_fd w' = Some p
            \<and> (\<exists>img. files w p = Some img \<and> img_sb img = Some (sb w')))"
  by (auto simp: fs_mount_def Let_def split: option.splits if_splits)

theorem fs_mount_fails_closed_witness:
  "fs_mount fs_h ''disk.img'' (mounted0 fs_h) = (-1, mounted0 fs_h)
   \<and> fst (fs_mount fs_h ''disk.img'' (stale_disk fs_h)) = -1
   \<and> disk_fd (snd (fs_mount fs_h ''disk.img'' (stale_disk fs_h))) = None
   \<and> fst (fs_mount fs_h ''disk.img'' (odd_disk fs_h)) = 0
   \<and> free_blocks (sb (snd (fs_mount fs_h ''disk.img'' (odd_disk fs_h)))) = 7
   \<and> free_inodes (sb (snd (fs_mount fs_h ''disk.img'' (odd_disk fs_h)))) = - 1"
proof -
  have 1: "disk_fd (mounted0 fs_h) \<noteq> None" by (simp add: mounted0_eq)
  have 2: "disk_fd (stale_disk fs_h) = None"
    "\<forall>img s. files (stale_disk fs_h) ''disk.img'' = Some img \<and> img_sb img = Some s
       \<longrightarrow> total_blocks s \<noteq> int (MAX_BLOCKS fs_h) \<or> block_size s \<noteq> int (BLOCK_SIZE fs_h)
                  \<or> total_inodes s \<noteq> int (MAX_FILES fs_h)
                  \<or> length (img_bitmap img) < BLOCK_SIZE fs_h
                  \<or> length (img_inodes img) < MAX_FILES fs_h"
    by (auto simp: stale_disk_def boot_def fs_h_def)
  have 3: "fst (fs_mount fs_h ''disk.img'' (odd_disk fs_h)) = 0"
    by (simp add: fs_mount_def odd_disk_def boot_def Let_def fresh_superblock_def)
  then have p3: "fs_mount fs_h ''disk.img'' (odd_disk fs_h)
             = (0, snd (fs_mount fs_h ''disk.img'' (odd_disk fs_h)))"
    by (simp add: prod_eq_iff)
  have 4: "files (odd_disk fs_h) ''disk.img'' = Some
        \<lparr>img_sb = Some ((fresh_superblock fs_h)\<lparr>free_blocks := 7, free_inodes := - 1\<rparr>),
         img_bitmap = fresh_bitmap fs_h,
         img_inodes = replicate (MAX_FILES fs_h) (empty_inode fs_h),
         img_data = (\<lambda>b. [])\<rparr>"
    by (simp add: odd_disk_def)
  from fs_mount_fails_closed [of "odd_disk fs_h" fs_h "''disk.img''"] p3
  have "\<exists>img. files (odd_disk fs_h) ''disk.img'' = Some img
           \<and> img_sb img = Some (sb (snd (fs_mount fs_h ''disk.img'' (odd_disk fs_h))))"
    by blast
  with 4 have 5: "sb (snd (fs_mount fs_h ''disk.img'' (odd_disk fs_h)))
      = (fresh_superblock fs_h)\<lparr>free_blocks := 7, free_inodes := - 1\<rparr>"
    by simp
  show ?thesis
    using fs_mount_fails_closed [of "mounted0 fs_h" fs_h "''disk.img''"]
      fs_mount_fails_closed [of "stale_disk fs_h" fs_h "''disk.img''"] 1 2 3 5
    by simp
qed


subsection \<open>The bitmap and the loops of fs_write\<close>

lemma bit_is_set_iff: "bit_is_set bm i \<longleftrightarrow> bit (bm ! (i div 8)) (i mod 8)"
  by (simp add: bit_is_set_def bit_iff_and_push_bit_not_eq_0)

lemma div_mod_8_eq: "c div 8 = b div 8 \<Longrightarrow> c mod 8 = b mod 8 \<Longrightarrow> c = (b::nat)"
  by (metis div_mult_mod_eq)

lemma bit_is_set_mark_used:
  assumes "b div 8 < length bm"
  shows "bit_is_set (mark_block_used bm b) c \<longleftrightarrow> c = b \<or> bit_is_set bm c"
proof (cases "c div 8 = b div 8")
  case True
  have "c mod 8 < 8" by simp
  then show ?thesis using assms True
    by (auto simp: bit_is_set_iff mark_block_used_def bit_or_iff bit_exp_iff
        dest: div_mod_8_eq)
next
  case False
  then show ?thesis using assms
    by (auto simp: bit_is_set_iff mark_block_used_def)
qed

lemma bit_is_set_mark_free:
  assumes "b div 8 < length bm"
  shows "bit_is_set (mark_block_free bm b) c \<longleftrightarrow> c \<noteq> b \<and> bit_is_set bm c"
proof (cases "c div 8 = b div 8")
  case True
  have "c mod 8 < 8" by simp
  then show ?thesis using assms True
    by (auto simp: bit_is_set_iff mark_block_free_def bit_and_iff bit_not_iff bit_exp_iff
        dest: div_mod_8_eq)
next
  case False
  then show ?thesis using assms
    by (auto simp: bit_is_set_iff mark_block_free_def)
qed

lemma find_free_block_from_Some:
  "find_free_block_from cfg bm i = Some b \<Longrightarrow>
     i \<le> b \<and> b < MAX_BLOCKS cfg \<and> \<not> bit_is_set bm b"
proof (induction cfg bm i rule: find_free_block_from.induct)
  case (1 cfg bm i)
  then show ?case
    by (subst (asm) (2) find_free_block_from.simps) (auto split: if_splits)
qed

lemma find_free_block_from_None:
  "find_free_block_from cfg bm i = None \<Longrightarrow> i \<le> b \<Longrightarrow> b < MAX_BLOCKS cfg \<Longrightarrow> bit_is_set bm b"
proof (induction cfg bm i rule: find_free_block_from.induct)
  case (1 cfg bm i)
  from "1.prems" have *: "i < MAX_BLOCKS cfg" by simp
  from "1.prems"(1) * have s: "bit_is_set bm i" "find_free_block_from cfg bm (Suc i) = None"
    by (subst (asm) find_free_block_from.simps, simp split: if_splits)+
  show ?case
  proof (cases "b = i")
    case True
    with s show ?thesis by simp
  next
    case False
    with "1.prems" have "Suc i \<le> b" by simp
    from "1.IH" [OF * _ s(2) this "1.prems"(3)] s(1) show ?thesis by simp
  qed
qed

lemma free_file_blocks_Inr:
  assumes "\<forall>b \<in> set bs. b div 8 < BLOCK_SIZE cfg" "length bm = BLOCK_SIZE cfg"
  shows "\<exists>bm'. free_file_blocks cfg bs bm fb = Inr (bm', fb + int (length (filter (\<lambda>b. b \<noteq> 0) bs)))
           \<and> length bm' = length bm
           \<and> (\<forall>c. bit_is_set bm' c \<longleftrightarrow> bit_is_set bm c \<and> \<not> (c \<in> set bs \<and> c \<noteq> 0))"
  using assms
proof (induction bs arbitrary: bm fb)
  case Nil
  then show ?case by simp
next
  case (Cons b bs)
  show ?case
  proof (cases "b = 0")
    case True
    with Cons.IH [of bm fb] Cons.prems show ?thesis by auto
  next
    case False
    from Cons.prems have b: "b div 8 < length bm" by simp
    from Cons.IH [of "mark_block_free bm b" "fb + 1"] Cons.prems
    obtain bm' where r: "free_file_blocks cfg bs (mark_block_free bm b) (fb + 1)
                = Inr (bm', fb + 1 + int (length (filter (\<lambda>b. b \<noteq> 0) bs)))"
      "length bm' = length bm"
      "\<forall>c. bit_is_set bm' c \<longleftrightarrow> bit_is_set (mark_block_free bm b) c \<and> \<not> (c \<in> set bs \<and> c \<noteq> 0)"
      by auto
    show ?thesis
      using False Cons.prems r by (auto simp: bit_is_set_mark_free [OF b])
  qed
qed


lemma free_file_blocks_Inr_range:
  "free_file_blocks cfg bs bm fb = Inr r \<Longrightarrow> \<forall>b \<in> set bs. b \<noteq> 0 \<longrightarrow> b div 8 < BLOCK_SIZE cfg"
  by (induction bs arbitrary: bm fb) (auto split: if_splits)

lemma free_file_blocks_Inr_bits:
  assumes "free_file_blocks cfg bs bm fb = Inr (bm', fb')" and "length bm = BLOCK_SIZE cfg"
    and "0 < BLOCK_SIZE cfg"
  shows "length bm' = length bm
     \<and> (\<forall>c. bit_is_set bm' c \<longleftrightarrow> bit_is_set bm c \<and> \<not> (c \<in> set bs \<and> c \<noteq> 0))"
proof -
  from free_file_blocks_Inr_range [OF assms(1)] assms(3)
  have "\<forall>b \<in> set bs. b div 8 < BLOCK_SIZE cfg" by (metis div_0)
  from free_file_blocks_Inr [OF this assms(2), of fb] assms(1) show ?thesis by auto
qed

lemma find_free_block_Some:
  "find_free_block cfg bm = Some b \<Longrightarrow> 10 \<le> b \<and> b < MAX_BLOCKS cfg \<and> \<not> bit_is_set bm b"
  unfolding find_free_block_def by (rule find_free_block_from_Some)

lemma find_free_block_None:
  "find_free_block cfg bm = None \<Longrightarrow> 10 \<le> b \<Longrightarrow> b < MAX_BLOCKS cfg \<Longrightarrow> bit_is_set bm b"
  unfolding find_free_block_def by (rule find_free_block_from_None)

lemma alloc_blocks_Inr:
  assumes "alloc_blocks cfg data sz n i (bm, fb, blks, d) = Inr (bm', fb', blks', d')"
    and "length bm = BLOCK_SIZE cfg" and "MAX_BLOCKS cfg \<le> 8 * BLOCK_SIZE cfg"
    and "i \<le> n" and "length blks = MAX_DIRECT_BLOCKS cfg"
  shows "\<exists>ns. length ns = n - i \<and> distinct ns
           \<and> (\<forall>b \<in> set ns. 10 \<le> b \<and> b < MAX_BLOCKS cfg \<and> \<not> bit_is_set bm b)
           \<and> length bm' = length bm
           \<and> (\<forall>c. bit_is_set bm' c \<longleftrightarrow> bit_is_set bm c \<or> c \<in> set ns)
           \<and> fb' = fb - int (n - i)
           \<and> (i < n \<longrightarrow> n \<le> MAX_DIRECT_BLOCKS cfg)
           \<and> blks' = take i blks @ ns @ drop n blks
           \<and> (\<forall>c. c \<notin> set ns \<longrightarrow> d' c = d c)
           \<and> (\<forall>k < n - i. d' (ns ! k) = block_image cfg data sz n (i + k))
           \<and> (i < n \<longrightarrow> (n - 1) * BLOCK_SIZE cfg + (sz - (n - 1) * BLOCK_SIZE cfg) \<le> length data)"
  using assms
proof (induction "n - i" arbitrary: i bm fb blks d)
  case 0
  then have "i = n" by simp
  with "0.prems"(1) show ?case
    by (subst (asm) alloc_blocks.simps) simp
next
  case (Suc m)
  then have lt: "i < n" by simp
  from Suc.prems(1) lt obtain b where b: "find_free_block cfg bm = Some b"
    by (subst (asm) alloc_blocks.simps) (auto split: option.splits)
  define tw where "tw = (if i = n - 1 then sz - i * BLOCK_SIZE cfg else BLOCK_SIZE cfg)"
  from Suc.prems(1) lt b have md: "i < MAX_DIRECT_BLOCKS cfg"
    by (subst (asm) alloc_blocks.simps) (auto split: if_splits)
  from Suc.prems(1) lt b md have len: "i * BLOCK_SIZE cfg + tw \<le> length data"
    unfolding tw_def
    by (subst (asm) alloc_blocks.simps) (auto simp: Let_def split: if_splits)
  from Suc.prems(1) lt b md len
  have rec: "alloc_blocks cfg data sz n (Suc i)
        (mark_block_used bm b, fb - 1, blks[i := b], d(b := block_image cfg data sz n i))
        = Inr (bm', fb', blks', d')"
    unfolding tw_def block_image_def
    by (subst (asm) alloc_blocks.simps) (auto simp: Let_def split: if_splits)
  from find_free_block_Some [OF b]
  have bb: "10 \<le> b" "b < MAX_BLOCKS cfg" "\<not> bit_is_set bm b" by auto
  with Suc.prems have bd: "b div 8 < length bm" by simp
  have m: "m = n - Suc i" using Suc.hyps(2) by simp
  from Suc.hyps(1) [OF m rec] Suc.prems lt
  obtain ns where ns: "length ns = n - Suc i" "distinct ns"
    "\<forall>c \<in> set ns. 10 \<le> c \<and> c < MAX_BLOCKS cfg \<and> \<not> bit_is_set (mark_block_used bm b) c"
    "length bm' = length bm"
    "\<forall>c. bit_is_set bm' c \<longleftrightarrow> bit_is_set (mark_block_used bm b) c \<or> c \<in> set ns"
    "fb' = fb - 1 - int (n - Suc i)"
    "Suc i < n \<longrightarrow> n \<le> MAX_DIRECT_BLOCKS cfg"
    "blks' = take (Suc i) (blks[i := b]) @ ns @ drop n (blks[i := b])"
    "\<forall>c. c \<notin> set ns \<longrightarrow> d' c = (d(b := block_image cfg data sz n i)) c"
    "\<forall>k < n - Suc i. d' (ns ! k) = block_image cfg data sz n (Suc i + k)"
    "Suc i < n \<longrightarrow> (n - 1) * BLOCK_SIZE cfg + (sz - (n - 1) * BLOCK_SIZE cfg) \<le> length data"
    by auto
  have bn: "b \<notin> set ns" using ns(3) by (auto simp: bit_is_set_mark_used [OF bd])
  have blks: "blks' = take i blks @ (b # ns) @ drop n blks"
    using ns(8) md lt Suc.prems(5) by (simp add: take_Suc_conv_app_nth)
  have "\<forall>k < n - i. (b # ns) ! k = (if k = 0 then b else ns ! (k - 1))"
    by (simp add: nth_Cons')
  have dk: "d' ((b # ns) ! k) = block_image cfg data sz n (i + k)" if "k < n - i" for k
  proof (cases k)
    case 0
    with ns(9) bn show ?thesis by simp
  next
    case (Suc k')
    with that ns(10) show ?thesis by simp
  qed
  have lk: "(n - 1) * BLOCK_SIZE cfg + (sz - (n - 1) * BLOCK_SIZE cfg) \<le> length data"
  proof (cases "Suc i < n")
    case True
    with ns(11) show ?thesis by simp
  next
    case False
    with lt have "i = n - 1" by simp
    with len show ?thesis by (simp add: tw_def)
  qed
  show ?case
  proof (intro exI [of _ "b # ns"] conjI)
    show "length (b # ns) = n - i" using ns(1) lt by simp
    show "distinct (b # ns)" using ns(2) bn by simp
    show "\<forall>c \<in> set (b # ns). 10 \<le> c \<and> c < MAX_BLOCKS cfg \<and> \<not> bit_is_set bm c"
      using ns(3) bb by (auto simp: bit_is_set_mark_used [OF bd])
    show "length bm' = length bm" by (rule ns(4))
    show "\<forall>c. bit_is_set bm' c \<longleftrightarrow> bit_is_set bm c \<or> c \<in> set (b # ns)"
      using ns(5) by (auto simp: bit_is_set_mark_used [OF bd])
    show "fb' = fb - int (n - i)" using ns(6) lt by simp
    show "i < n \<longrightarrow> n \<le> MAX_DIRECT_BLOCKS cfg" using ns(7) md by (cases "Suc i < n") auto
    show "blks' = take i blks @ (b # ns) @ drop n blks" by (rule blks)
    show "\<forall>c. c \<notin> set (b # ns) \<longrightarrow> d' c = d c" using ns(9) by auto
    show "\<forall>k < n - i. d' ((b # ns) ! k) = block_image cfg data sz n (i + k)"
      using dk by blast
    show "i < n \<longrightarrow> (n - 1) * BLOCK_SIZE cfg + (sz - (n - 1) * BLOCK_SIZE cfg) \<le> length data"
      using lk by blast
  qed
qed


lemma free_bits_mark_used:
  assumes "b div 8 < length bm"
  shows "{c. 10 \<le> c \<and> c < M \<and> \<not> bit_is_set (mark_block_used bm b) c}
       = {c. 10 \<le> c \<and> c < M \<and> \<not> bit_is_set bm c} - {b}"
  by (auto simp: bit_is_set_mark_used [OF assms])

lemma alloc_blocks_progress:
  assumes "length bm = BLOCK_SIZE cfg" and "MAX_BLOCKS cfg \<le> 8 * BLOCK_SIZE cfg"
    and "n \<le> MAX_DIRECT_BLOCKS cfg"
    and "n - i \<le> card {c. 10 \<le> c \<and> c < MAX_BLOCKS cfg \<and> \<not> bit_is_set bm c}"
    and "sz \<le> length data" and "(n - 1) * BLOCK_SIZE cfg \<le> sz"
  shows "\<exists>bm' fb' blks' d'. alloc_blocks cfg data sz n i (bm, fb, blks, d)
           = Inr (bm', fb', blks', d')"
  using assms
proof (induction "n - i" arbitrary: i bm fb blks d)
  case 0
  then show ?case by (subst alloc_blocks.simps) simp
next
  case (Suc m)
  let ?F = "{c. 10 \<le> c \<and> c < MAX_BLOCKS cfg \<and> \<not> bit_is_set bm c}"
  from Suc.hyps(2) have lt: "i < n" by simp
  have fin: "finite ?F" by simp
  from Suc.prems(4) lt have "0 < card ?F" by simp
  then have "?F \<noteq> {}" by (metis card.empty less_irrefl)
  then obtain c where c: "10 \<le> c" "c < MAX_BLOCKS cfg" "\<not> bit_is_set bm c" by auto
  have "find_free_block cfg bm \<noteq> None"
    using find_free_block_None [of cfg bm c] c by auto
  then obtain b where b: "find_free_block cfg bm = Some b" by auto
  from find_free_block_Some [OF b]
  have bb: "10 \<le> b" "b < MAX_BLOCKS cfg" "\<not> bit_is_set bm b" by auto
  with Suc.prems have bd: "b div 8 < length bm" by simp
  have md: "i < MAX_DIRECT_BLOCKS cfg" using lt Suc.prems(3) by simp
  define tw where "tw = (if i = n - 1 then sz - i * BLOCK_SIZE cfg else BLOCK_SIZE cfg)"
  have len: "i * BLOCK_SIZE cfg + tw \<le> length data"
  proof (cases "i = n - 1")
    case True
    with Suc.prems(5,6) show ?thesis by (simp add: tw_def)
  next
    case False
    with lt have "Suc i \<le> n - 1" by simp
    then have "Suc i * BLOCK_SIZE cfg \<le> (n - 1) * BLOCK_SIZE cfg" by (rule mult_le_mono1)
    then have "Suc i * BLOCK_SIZE cfg \<le> length data" using Suc.prems(5,6) by linarith
    with False show ?thesis by (simp add: tw_def)
  qed
  have cardF: "card (?F - {b}) = card ?F - 1"
    using bb by (simp add: card_Diff_singleton)
  have m: "m = n - Suc i" using Suc.hyps(2) by simp
  have "n - Suc i \<le> card {c. 10 \<le> c \<and> c < MAX_BLOCKS cfg
          \<and> \<not> bit_is_set (mark_block_used bm b) c}"
    unfolding free_bits_mark_used [OF bd] cardF using Suc.prems(4) by simp
  from Suc.hyps(1) [OF m _ Suc.prems(2,3) this Suc.prems(5,6),
      of "fb - 1" "blks[i := b]" "d(b := block_image cfg data sz n i)"] Suc.prems(1)
  obtain bm' fb' blks' d' where "alloc_blocks cfg data sz n (Suc i)
        (mark_block_used bm b, fb - 1, blks[i := b], d(b := block_image cfg data sz n i))
        = Inr (bm', fb', blks', d')"
    by auto
  then show ?case
    using lt b md len unfolding tw_def block_image_def
    by (subst alloc_blocks.simps) (auto simp: Let_def)
qed

lemma read_blocks_done: "btr \<le> length acc \<Longrightarrow> read_blocks cfg d bs btr acc = Inr acc"
  by (cases bs) auto

lemma read_blocks_written:
  assumes "\<forall>k < length ns. 10 \<le> ns ! k \<and> d (ns ! k) = block_image cfg data sz (length ns) k"
    and "sz \<le> length data" and "(length ns - 1) * BLOCK_SIZE cfg < sz"
    and "sz \<le> length ns * BLOCK_SIZE cfg" and "j \<le> length ns"
  shows "read_blocks cfg d (drop j ns @ zs) sz (take (min (j * BLOCK_SIZE cfg) sz) data)
           = Inr (take sz data)"
  using assms(5)
proof (induction "length ns - j" arbitrary: j)
  case 0
  then have "j = length ns" by simp
  with assms(2,4) show ?case by (simp add: read_blocks_done min_def)
next
  case (Suc m)
  let ?B = "BLOCK_SIZE cfg" and ?n = "length ns"
  from Suc.hyps(2) have lt: "j < ?n" by simp
  then have "j \<le> ?n - 1" by simp
  then have "j * ?B \<le> (?n - 1) * ?B" by (rule mult_le_mono1)
  then have jb: "j * ?B < sz" using assms(3) by (rule le_less_trans)
  from assms(1) lt have blk: "10 \<le> ns ! j" "d (ns ! j) = block_image cfg data sz ?n j" by auto
  define chunk where "chunk = (if sz - j * ?B < ?B then sz - j * ?B else ?B)"
  have step: "take (min (j * ?B) sz) data @ take chunk (d (ns ! j))
                = take (min (Suc j * ?B) sz) data"
  proof (cases "j = ?n - 1")
    case True
    with lt have sj: "Suc j = ?n" by simp
    have tw: "sz - j * ?B \<le> ?B" using assms(4) sj [symmetric] by simp
    then have ch: "chunk = sz - j * ?B" by (simp add: chunk_def)
    have "length (take (sz - j * ?B) (drop (j * ?B) data)) = sz - j * ?B"
      using assms(2) by simp
    moreover have "(if j = ?n - 1 then sz - j * ?B else ?B) = sz - j * ?B"
      using True by simp
    ultimately have "take chunk (d (ns ! j)) = take (sz - j * ?B) (drop (j * ?B) data)"
      by (simp add: blk(2) block_image_def ch Let_def)
    moreover have "min (Suc j * ?B) sz = j * ?B + (sz - j * ?B)"
      using assms(4) sj jb by simp
    moreover have "min (j * ?B) sz = j * ?B" using jb by simp
    ultimately show ?thesis by (simp only: take_add)
  next
    case False
    with lt have "Suc j \<le> ?n - 1" by simp
    then have "Suc j * ?B \<le> (?n - 1) * ?B" by (rule mult_le_mono1)
    then have sjb: "Suc j * ?B < sz" using assms(3) by (rule le_less_trans)
    then have ch: "chunk = ?B" by (simp add: chunk_def)
    have "length (take ?B (drop (j * ?B) data)) = ?B"
      using assms(2) sjb by simp
    moreover have "(if j = ?n - 1 then sz - j * ?B else ?B) = ?B"
      using False by simp
    ultimately have "take chunk (d (ns ! j)) = take ?B (drop (j * ?B) data)"
      by (simp add: blk(2) block_image_def ch Let_def)
    moreover have "min (Suc j * ?B) sz = j * ?B + ?B" using sjb by simp
    moreover have "min (j * ?B) sz = j * ?B" using jb by simp
    ultimately show ?thesis by (simp only: take_add)
  qed
  have m: "m = ?n - Suc j" using Suc.hyps(2) by simp
  have ih: "read_blocks cfg d (drop (Suc j) ns @ zs) sz (take (min (Suc j * ?B) sz) data)
             = Inr (take sz data)"
    using Suc.hyps(1) [OF m] lt by simp
  have dj: "drop j ns = ns ! j # drop (Suc j) ns" using lt by (simp add: Cons_nth_drop_Suc)
  have la: "length (take (min (j * ?B) sz) data) = j * ?B" using jb assms(2) by simp
  show ?case
    unfolding dj append_Cons read_blocks.simps la
    using jb blk(1) ih step unfolding chunk_def la by (simp add: Let_def)
qed



subsection \<open>The invariant\<close>

lemma all_ptrs_append [simp]: "all_ptrs (xs @ ys) = all_ptrs xs @ all_ptrs ys"
  by (simp add: all_ptrs_def)

lemma all_ptrs_Cons [simp]: "all_ptrs (x # xs) = file_ptrs x @ all_ptrs xs"
  by (simp add: all_ptrs_def)

lemma all_ptrs_Nil [simp]: "all_ptrs [] = []"
  by (simp add: all_ptrs_def)

lemma all_ptrs_split:
  "i < length tbl \<Longrightarrow>
     all_ptrs tbl = all_ptrs (take i tbl) @ file_ptrs (tbl ! i) @ all_ptrs (drop (Suc i) tbl)"
  by (subst id_take_nth_drop [of i tbl], assumption) (simp del: append_take_drop_id)

lemma all_ptrs_update:
  "i < length tbl \<Longrightarrow>
     all_ptrs (tbl[i := x]) = all_ptrs (take i tbl) @ file_ptrs x @ all_ptrs (drop (Suc i) tbl)"
  by (simp add: upd_conv_take_nth_drop)

lemma used_count_split:
  "i < length tbl \<Longrightarrow>
     length (filter used tbl) = length (filter used (take i tbl)) + (if used (tbl ! i) then 1 else 0)
        + length (filter used (drop (Suc i) tbl))"
  by (subst id_take_nth_drop [of i tbl], assumption) (simp del: append_take_drop_id)

lemma used_count_update:
  "i < length tbl \<Longrightarrow>
     length (filter used (tbl[i := x])) = length (filter used (take i tbl)) + (if used x then 1 else 0)
        + length (filter used (drop (Suc i) tbl))"
  by (simp add: upd_conv_take_nth_drop)

lemma file_ptrs_zero_blocks: "set (blocks x) \<subseteq> {0} \<Longrightarrow> file_ptrs x = []"
  by (auto simp: file_ptrs_def filter_empty_conv)

lemma core_inv_same_ptrs:
  assumes "core_inv cfg tbl bm fb" and "idx < length tbl"
    and "file_ptrs (tbl ! idx) = []" and "file_ptrs x = []"
    and "length (blocks x) = MAX_DIRECT_BLOCKS cfg"
  shows "core_inv cfg (tbl[idx := x]) bm fb"
proof -
  have "all_ptrs (tbl[idx := x]) = all_ptrs tbl"
    using assms(2,3,4) by (simp add: all_ptrs_update) (simp add: all_ptrs_split [of idx tbl])
  moreover have "\<forall>ino \<in> set (tbl[idx := x]). length (blocks ino) = MAX_DIRECT_BLOCKS cfg"
    using assms(1,5) set_update_subset_insert [of tbl idx x] by (auto simp: core_inv_def)
  ultimately show ?thesis using assms(1) by (simp add: core_inv_def)
qed

lemma core_inv_free:
  assumes inv: "core_inv cfg tbl bm fb" and idx: "idx < length tbl" and u: "used (tbl ! idx)"
    and cfg: "MAX_BLOCKS cfg \<le> 8 * BLOCK_SIZE cfg" "0 < BLOCK_SIZE cfg"
    and x: "file_ptrs x = []" "length (blocks x) = MAX_DIRECT_BLOCKS cfg"
  shows "\<exists>bm1. free_file_blocks cfg (blocks (tbl ! idx)) bm fb
                  = Inr (bm1, fb + int (length (file_ptrs (tbl ! idx))))
           \<and> core_inv cfg (tbl[idx := x]) bm1 (fb + int (length (file_ptrs (tbl ! idx))))"
proof -
  let ?P = "file_ptrs (tbl ! idx)"
  let ?A = "all_ptrs (take idx tbl)" and ?C = "all_ptrs (drop (Suc idx) tbl)"
  have sp: "all_ptrs tbl = ?A @ ?P @ ?C" by (rule all_ptrs_split [OF idx])
  have up: "all_ptrs (tbl[idx := x]) = ?A @ ?C" using x(1) by (simp add: all_ptrs_update [OF idx])
  have P: "?P = filter (\<lambda>b. b \<noteq> 0) (blocks (tbl ! idx))" using u by (simp add: file_ptrs_def)
  have rng: "\<forall>b \<in> set (all_ptrs tbl). 10 \<le> b \<and> b < MAX_BLOCKS cfg"
    using inv by (simp add: core_inv_def)
  have "\<forall>b \<in> set (blocks (tbl ! idx)). b div 8 < BLOCK_SIZE cfg"
  proof
    fix b assume b: "b \<in> set (blocks (tbl ! idx))"
    show "b div 8 < BLOCK_SIZE cfg"
    proof (cases "b = 0")
      case True
      then show ?thesis using cfg(2) by simp
    next
      case False
      with b have "b \<in> set (all_ptrs tbl)" by (simp add: sp P)
      with rng have "b < MAX_BLOCKS cfg" by blast
      with cfg(1) show ?thesis by simp
    qed
  qed
  moreover have lbm: "length bm = BLOCK_SIZE cfg" using inv by (simp add: core_inv_def)
  ultimately obtain bm1 where
    r: "free_file_blocks cfg (blocks (tbl ! idx)) bm fb
          = Inr (bm1, fb + int (length (filter (\<lambda>b. b \<noteq> 0) (blocks (tbl ! idx)))))"
    and l1: "length bm1 = length bm"
    and b1: "\<forall>c. bit_is_set bm1 c \<longleftrightarrow>
               bit_is_set bm c \<and> \<not> (c \<in> set (blocks (tbl ! idx)) \<and> c \<noteq> 0)"
    using free_file_blocks_Inr [of "blocks (tbl ! idx)" cfg bm fb] by blast
  have b1': "bit_is_set bm1 c \<longleftrightarrow> bit_is_set bm c \<and> c \<notin> set ?P" for c
    using b1 by (auto simp: P)
  have d: "distinct (?A @ ?P @ ?C)" using inv by (simp add: core_inv_def sp)
  have bits: "\<forall>b. 10 \<le> b \<and> b < MAX_BLOCKS cfg \<longrightarrow> (bit_is_set bm b \<longleftrightarrow> b \<in> set (?A @ ?P @ ?C))"
    using inv by (simp add: core_inv_def sp)
  have fbv: "fb = int (MAX_BLOCKS cfg) - 10 - int (length (?A @ ?P @ ?C))"
    using inv by (simp add: core_inv_def sp)
  have "core_inv cfg (tbl[idx := x]) bm1 (fb + int (length ?P))"
    unfolding core_inv_def up
  proof (intro conjI)
    show "length (tbl[idx := x]) = MAX_FILES cfg" using inv by (simp add: core_inv_def)
    show "\<forall>ino \<in> set (tbl[idx := x]). length (blocks ino) = MAX_DIRECT_BLOCKS cfg"
      using inv x(2) set_update_subset_insert [of tbl idx x] by (auto simp: core_inv_def)
    show "length bm1 = BLOCK_SIZE cfg" using l1 lbm by simp
    show "distinct (?A @ ?C)" using d by auto
    show "\<forall>b. 10 \<le> b \<and> b < MAX_BLOCKS cfg \<longrightarrow> (bit_is_set bm1 b \<longleftrightarrow> b \<in> set (?A @ ?C))"
      using bits d by (auto simp: b1')
    show "\<forall>b \<in> set (?A @ ?C). 10 \<le> b \<and> b < MAX_BLOCKS cfg" using rng by (auto simp: sp)
    show "fb + int (length ?P) = int (MAX_BLOCKS cfg) - 10 - int (length (?A @ ?C))"
      using fbv by simp
  qed
  with r show ?thesis by (auto simp: P)
qed

lemma core_inv_alloc:
  assumes inv: "core_inv cfg tbl bm fb" and idx: "idx < length tbl"
    and old: "file_ptrs (tbl ! idx) = []"
    and blks: "length blks = MAX_DIRECT_BLOCKS cfg" "set blks \<subseteq> {0}"
    and al: "alloc_blocks cfg data sz n 0 (bm, fb, blks, d) = Inr (bm', fb', blks', d')"
    and cfg: "MAX_BLOCKS cfg \<le> 8 * BLOCK_SIZE cfg"
    and x: "used x" "blocks x = take n blks' @ replicate (MAX_DIRECT_BLOCKS cfg - n) 0"
  shows "\<exists>ns. length ns = n \<and> distinct ns \<and> n \<le> MAX_DIRECT_BLOCKS cfg
           \<and> (\<forall>b \<in> set ns. 10 \<le> b \<and> b < MAX_BLOCKS cfg \<and> b \<notin> set (all_ptrs tbl))
           \<and> blocks x = ns @ replicate (MAX_DIRECT_BLOCKS cfg - n) 0
           \<and> (\<forall>c. c \<notin> set ns \<longrightarrow> d' c = d c)
           \<and> (\<forall>k < n. d' (ns ! k) = block_image cfg data sz n k)
           \<and> (0 < n \<longrightarrow> (n - 1) * BLOCK_SIZE cfg + (sz - (n - 1) * BLOCK_SIZE cfg) \<le> length data)
           \<and> core_inv cfg (tbl[idx := x]) bm' fb'"
proof -
  have lbm: "length bm = BLOCK_SIZE cfg" using inv by (simp add: core_inv_def)
  from alloc_blocks_Inr [OF al lbm cfg _ blks(1)]
  obtain ns where ns: "length ns = n" "distinct ns"
    "\<forall>b \<in> set ns. 10 \<le> b \<and> b < MAX_BLOCKS cfg \<and> \<not> bit_is_set bm b"
    "length bm' = length bm"
    "\<forall>c. bit_is_set bm' c \<longleftrightarrow> bit_is_set bm c \<or> c \<in> set ns"
    "fb' = fb - int n"
    "0 < n \<longrightarrow> n \<le> MAX_DIRECT_BLOCKS cfg"
    "blks' = ns @ drop n blks"
    "\<forall>c. c \<notin> set ns \<longrightarrow> d' c = d c"
    "\<forall>k < n. d' (ns ! k) = block_image cfg data sz n k"
    "0 < n \<longrightarrow> (n - 1) * BLOCK_SIZE cfg + (sz - (n - 1) * BLOCK_SIZE cfg) \<le> length data"
    by auto
  have nmd: "n \<le> MAX_DIRECT_BLOCKS cfg" using ns(7) by (cases n) auto
  have bx: "blocks x = ns @ replicate (MAX_DIRECT_BLOCKS cfg - n) 0"
    using x(2) ns(1,8) by simp
  have "filter (\<lambda>b. b \<noteq> 0) ns = ns" using ns(3) by (auto simp: filter_id_conv)
  then have fx: "file_ptrs x = ns" using x(1) by (simp add: file_ptrs_def bx)
  let ?A = "all_ptrs (take idx tbl)" and ?C = "all_ptrs (drop (Suc idx) tbl)"
  have sp: "all_ptrs tbl = ?A @ ?C" using all_ptrs_split [OF idx] old by simp
  have up: "all_ptrs (tbl[idx := x]) = ?A @ ns @ ?C" by (simp add: all_ptrs_update [OF idx] fx)
  have bits: "\<forall>b. 10 \<le> b \<and> b < MAX_BLOCKS cfg \<longrightarrow> (bit_is_set bm b \<longleftrightarrow> b \<in> set (all_ptrs tbl))"
    using inv by (simp add: core_inv_def)
  have fresh: "\<forall>b \<in> set ns. 10 \<le> b \<and> b < MAX_BLOCKS cfg \<and> b \<notin> set (all_ptrs tbl)"
    using ns(3) bits by blast
  have d: "distinct (?A @ ?C)" using inv by (simp add: core_inv_def sp)
  have rng: "\<forall>b \<in> set (?A @ ?C). 10 \<le> b \<and> b < MAX_BLOCKS cfg"
    using inv by (simp add: core_inv_def sp)
  have fbv: "fb = int (MAX_BLOCKS cfg) - 10 - int (length (?A @ ?C))"
    using inv by (simp add: core_inv_def sp)
  have "core_inv cfg (tbl[idx := x]) bm' fb'"
    unfolding core_inv_def up
  proof (intro conjI)
    show "length (tbl[idx := x]) = MAX_FILES cfg" using inv by (simp add: core_inv_def)
    have "length (blocks x) = MAX_DIRECT_BLOCKS cfg" using bx ns(1) nmd by simp
    then show "\<forall>ino \<in> set (tbl[idx := x]). length (blocks ino) = MAX_DIRECT_BLOCKS cfg"
      using inv set_update_subset_insert [of tbl idx x] by (auto simp: core_inv_def)
    show "length bm' = BLOCK_SIZE cfg" using ns(4) lbm by simp
    show "distinct (?A @ ns @ ?C)" using d ns(2) fresh by (auto simp: sp)
    show "\<forall>b. 10 \<le> b \<and> b < MAX_BLOCKS cfg \<longrightarrow> (bit_is_set bm' b \<longleftrightarrow> b \<in> set (?A @ ns @ ?C))"
      using bits ns(5) by (auto simp: sp)
    show "\<forall>b \<in> set (?A @ ns @ ?C). 10 \<le> b \<and> b < MAX_BLOCKS cfg" using rng fresh by auto
    show "fb' = int (MAX_BLOCKS cfg) - 10 - int (length (?A @ ns @ ?C))"
      using fbv ns(6,1) by simp
  qed
  with ns nmd bx fresh show ?thesis by blast
qed

lemma core_inv_card_free:
  assumes "core_inv cfg tbl bm fb" and "10 \<le> MAX_BLOCKS cfg"
  shows "int (card {c. 10 \<le> c \<and> c < MAX_BLOCKS cfg \<and> \<not> bit_is_set bm c}) = fb"
proof -
  let ?U = "{10..<MAX_BLOCKS cfg}" and ?S = "set (all_ptrs tbl)"
  have sub: "?S \<subseteq> ?U" using assms(1) by (auto simp: core_inv_def)
  have "{c. 10 \<le> c \<and> c < MAX_BLOCKS cfg \<and> \<not> bit_is_set bm c} = ?U - ?S"
    using assms(1) by (auto simp: core_inv_def)
  moreover have "card (?U - ?S) = card ?U - card ?S"
    using sub by (simp add: card_Diff_subset)
  moreover have "card ?S = length (all_ptrs tbl)"
    using assms(1) by (simp add: core_inv_def distinct_card)
  moreover have "card ?S \<le> card ?U" using sub by (intro card_mono) auto
  ultimately show ?thesis using assms by (simp add: core_inv_def)
qed



lemma find_free_inode_from_Some:
  "find_free_inode_from tbl i = Some k \<Longrightarrow> i \<le> k \<and> k - i < length tbl \<and> \<not> used (tbl ! (k - i))"
proof (induction tbl arbitrary: i)
  case Nil
  then show ?case by simp
next
  case (Cons ino rest)
  show ?case
  proof (cases "used ino")
    case False
    with Cons.prems show ?thesis by simp
  next
    case True
    with Cons.prems have r: "find_free_inode_from rest (Suc i) = Some k" by simp
    from Cons.IH [OF r] have ih: "Suc i \<le> k" "k - Suc i < length rest" "\<not> used (rest ! (k - Suc i))"
      by auto
    from ih(1) have e: "k - i = Suc (k - Suc i)" by simp
    show ?thesis using ih unfolding e by auto
  qed
qed

lemma find_inode_Some:
  "find_inode cfg w f = Some k \<Longrightarrow> k < length (inode_table w) \<and> used (inode_table w ! k)
     \<and> strncmp_eq (name (inode_table w ! k)) f (MAX_FILENAME cfg)"
  using find_inode_from_Some [of cfg "inode_table w" f 0 k] by (simp add: find_inode_def)

lemma find_free_inode_Some:
  "find_free_inode w = Some k \<Longrightarrow> k < length (inode_table w) \<and> \<not> used (inode_table w ! k)"
  using find_free_inode_from_Some [of "inode_table w" 0 k] by (simp add: find_free_inode_def)

lemma fs_inv_create:
  assumes "fs_inv cfg w" and "fs_create cfg filename w = (r, w')"
  shows "fs_inv cfg w'"
proof (cases "r = 0")
  case False
  with assms(2) have "w' = w"
    by (auto simp: fs_create_def split: if_splits option.splits)
  with assms(1) show ?thesis by simp
next
  case True
  with assms(2) obtain nm k where k: "find_free_inode w = Some k"
    and w': "w' = w\<lparr>inode_table := (inode_table w)[k :=
                 \<lparr>used = True, name = nm, size_bytes = 0,
                  blocks = replicate (MAX_DIRECT_BLOCKS cfg) 0\<rparr>],
               sb := (sb w)\<lparr>free_inodes := free_inodes (sb w) - 1\<rparr>\<rparr>"
    by (auto simp: fs_create_def split: if_splits option.splits)
  let ?x = "\<lparr>used = True, name = nm, size_bytes = 0,
                  blocks = replicate (MAX_DIRECT_BLOCKS cfg) 0\<rparr>"
  from find_free_inode_Some [OF k] have kk: "k < length (inode_table w)"
    "\<not> used (inode_table w ! k)" by auto
  have "core_inv cfg ((inode_table w)[k := ?x]) (block_bitmap w) (free_blocks (sb w))"
    using assms(1) kk
    by (intro core_inv_same_ptrs) (auto simp: fs_inv_def file_ptrs_def filter_empty_conv)
  moreover have "int (length (filter used ((inode_table w)[k := ?x])))
        = int (length (filter used (inode_table w))) + 1"
    using kk by (simp add: used_count_update [OF kk(1)] used_count_split [OF kk(1)])
  ultimately show ?thesis using assms(1) by (simp add: fs_inv_def w')
qed

lemma fs_inv_delete:
  assumes "fs_inv cfg w" and "fs_delete cfg filename w = Inr (r, w')" and "wf_config cfg"
  shows "fs_inv cfg w'"
proof (cases "r = 0")
  case False
  with assms(2) have "w' = w"
    by (auto simp: fs_delete_def Let_def split: if_splits option.splits sum.splits)
  with assms(1) show ?thesis by simp
next
  case True
  with assms(2) obtain fname k bm1 fb1 where k: "find_inode cfg w fname = Some k"
    and fr: "free_file_blocks cfg (blocks (inode_table w ! k)) (block_bitmap w)
               (free_blocks (sb w)) = Inr (bm1, fb1)"
    and w': "w' = w\<lparr>block_bitmap := bm1,
               inode_table := (inode_table w)[k := (inode_table w ! k)
                  \<lparr>blocks := map (\<lambda>_. 0) (blocks (inode_table w ! k)), used := False,
                   name := [], size_bytes := 0\<rparr>],
               sb := (sb w)\<lparr>free_blocks := fb1, free_inodes := free_inodes (sb w) + 1\<rparr>\<rparr>"
    by (auto simp: fs_delete_def Let_def split: if_splits option.splits sum.splits)
  let ?ino = "inode_table w ! k"
  let ?x = "?ino\<lparr>blocks := map (\<lambda>_. 0) (blocks ?ino), used := False, name := [], size_bytes := 0\<rparr>"
  from find_inode_Some [OF k] have kk: "k < length (inode_table w)" "used ?ino" by auto
  have ci: "core_inv cfg (inode_table w) (block_bitmap w) (free_blocks (sb w))"
    using assms(1) by (simp add: fs_inv_def)
  have "?ino \<in> set (inode_table w)" using kk(1) by simp
  with ci have lx: "length (blocks ?x) = MAX_DIRECT_BLOCKS cfg" by (simp add: core_inv_def)
  have fx: "file_ptrs ?x = []" by (simp add: file_ptrs_def)
  from core_inv_free [OF ci kk _ _ fx lx] assms(3) fr
  have "core_inv cfg ((inode_table w)[k := ?x]) bm1 fb1"
    by (auto simp: wf_config_def)
  moreover have "int (length (filter used ((inode_table w)[k := ?x])))
        = int (length (filter used (inode_table w))) - 1"
    using kk by (simp add: used_count_update [OF kk(1)] used_count_split [OF kk(1)])
  ultimately show ?thesis using assms(1) by (simp add: fs_inv_def w')
qed



lemma needed_blocks_bounds:
  assumes "0 < sz" and "0 < BLOCK_SIZE cfg"
  shows "0 < needed_blocks_of cfg sz"
    and "(needed_blocks_of cfg sz - 1) * BLOCK_SIZE cfg < nat sz"
    and "nat sz \<le> needed_blocks_of cfg sz * BLOCK_SIZE cfg"
proof -
  define B where "B = int (BLOCK_SIZE cfg)"
  define q where "q = (sz + B - 1) div B"
  have B: "0 < B" using assms(2) by (simp add: B_def)
  have n: "needed_blocks_of cfg sz = nat q" by (simp add: needed_blocks_of_def q_def B_def)
  have "B \<le> sz + B - 1" using assms(1) by simp
  then have "B div B \<le> (sz + B - 1) div B" by (rule zdiv_mono1) (rule B)
  then have q1: "1 \<le> q" using B by (simp add: q_def)
  have dm: "sz + B - 1 = q * B + (sz + B - 1) mod B" unfolding q_def by simp
  have "0 \<le> (sz + B - 1) mod B" using B by simp
  with dm have lo: "q * B \<le> sz + B - 1" by linarith
  have "(sz + B - 1) mod B < B" using B by simp
  with dm have hi: "sz + B - 1 < q * B + B" by linarith
  show "0 < needed_blocks_of cfg sz" using q1 n by simp
  have "(q - 1) * B < sz" using lo by (simp add: algebra_simps)
  moreover have "int ((nat q - 1) * BLOCK_SIZE cfg) = (q - 1) * B"
    using q1 by (simp add: B_def)
  ultimately show "(needed_blocks_of cfg sz - 1) * BLOCK_SIZE cfg < nat sz"
    unfolding n using assms(1) by linarith
  have "sz \<le> q * B" using hi by simp
  moreover have "int (nat q * BLOCK_SIZE cfg) = q * B" using q1 by (simp add: B_def)
  ultimately show "nat sz \<le> needed_blocks_of cfg sz * BLOCK_SIZE cfg"
    unfolding n by linarith
qed

lemma bit_is_set_fold_mark:
  "\<forall>i \<in> set xs. i div 8 < length bm \<Longrightarrow>
     bit_is_set (fold (\<lambda>i bm. mark_block_used bm i) xs bm) c \<longleftrightarrow> c \<in> set xs \<or> bit_is_set bm c"
  by (induction xs arbitrary: bm) (auto simp: bit_is_set_mark_used)

lemma bit_is_set_fresh_bitmap:
  assumes "2 \<le> BLOCK_SIZE cfg" and "b div 8 < BLOCK_SIZE cfg"
  shows "bit_is_set (fresh_bitmap cfg) b \<longleftrightarrow> b < 10"
proof -
  have "\<forall>i \<in> set [0..<10]. i div 8 < length (replicate (BLOCK_SIZE cfg) (0::byte))"
    using assms(1) by auto
  from bit_is_set_fold_mark [OF this]
  show ?thesis using assms(2) by (simp add: fresh_bitmap_def) (simp add: bit_is_set_iff)
qed

lemma all_ptrs_replicate_empty [simp]: "all_ptrs (replicate n (empty_inode cfg)) = []"
  by (induction n) (auto simp: file_ptrs_def empty_inode_def)

lemma filter_used_replicate_empty [simp]: "filter used (replicate n (empty_inode cfg)) = []"
  by (induction n) (auto simp: empty_inode_def)

lemma length_blocks_empty_inode [simp]:
  "length (blocks (empty_inode cfg)) = MAX_DIRECT_BLOCKS cfg"
  by (simp add: empty_inode_def)

lemma core_inv_fresh:
  assumes "wf_config cfg"
  shows "core_inv cfg (replicate (MAX_FILES cfg) (empty_inode cfg)) (fresh_bitmap cfg)
           (int (MAX_BLOCKS cfg) - 10)"
proof -
  have 2: "2 \<le> BLOCK_SIZE cfg" using assms by (simp add: wf_config_def)
  have "\<not> bit_is_set (fresh_bitmap cfg) b" if "10 \<le> b" "b < MAX_BLOCKS cfg" for b
  proof -
    have "MAX_BLOCKS cfg \<le> 8 * BLOCK_SIZE cfg" using assms by (simp add: wf_config_def)
    with that have "b div 8 < BLOCK_SIZE cfg" by simp
    from bit_is_set_fresh_bitmap [OF 2 this] that show ?thesis by simp
  qed
  then show ?thesis by (auto simp: core_inv_def)
qed

lemma fs_inv_mounted:
  assumes "wf_config cfg" and "fs_format cfg path w0 = (0, w1)" and "fs_mount cfg path w1 = (0, w2)"
  shows "fs_inv cfg w2"
proof -
  from assms(2) have w1: "w1 = w0\<lparr>sb := fresh_superblock cfg, block_bitmap := fresh_bitmap cfg,
        inode_table := replicate (MAX_FILES cfg) (empty_inode cfg),
        files := (files w0)(path \<mapsto>
          \<lparr>img_sb = Some (fresh_superblock cfg), img_bitmap = fresh_bitmap cfg,
           img_inodes = replicate (MAX_FILES cfg) (empty_inode cfg),
           img_data = (\<lambda>b. if 10 \<le> b \<and> b < MAX_BLOCKS cfg
                             then replicate (BLOCK_SIZE cfg) 0 else [])\<rparr>)\<rparr>"
    by (auto simp: fs_format_def Let_def split: if_splits)
  from assms(3) have w2: "w2 = w1\<lparr>disk_fd := Some path\<rparr>"
    unfolding w1 by (auto simp: fs_mount_def Let_def split: if_splits)
  show ?thesis
    using core_inv_fresh [OF assms(1)]
    by (simp add: fs_inv_def w2 w1 fresh_superblock_def)
qed



lemma fs_inv_c_arrays: "fs_inv cfg w \<Longrightarrow> c_arrays cfg w"
  by (simp add: fs_inv_def core_inv_def c_arrays_def)

lemma fs_write_unfold:
  assumes "fs_write cfg filename data sz w = Inr (0, w')"
  shows "\<exists>p fname bytes k bm1 fb1 bm2 fb2 blks2 d2.
           disk_fd w = Some p \<and> filename = Some fname \<and> data = Some bytes \<and> 0 < sz
           \<and> length fname < MAX_FILENAME cfg \<and> sz \<le> int (MAX_FILES cfg * BLOCK_SIZE cfg)
           \<and> find_inode cfg w fname = Some k
           \<and> int (needed_blocks_of cfg sz) \<le> free_blocks (sb w)
           \<and> free_file_blocks cfg (blocks (inode_table w ! k)) (block_bitmap w)
                 (free_blocks (sb w)) = Inr (bm1, fb1)
           \<and> alloc_blocks cfg bytes (nat sz) (needed_blocks_of cfg sz) 0
                 (bm1, fb1, map (\<lambda>_. 0) (blocks (inode_table w ! k)), disk_data w p)
                 = Inr (bm2, fb2, blks2, d2)
           \<and> w' = w\<lparr>block_bitmap := bm2, sb := (sb w)\<lparr>free_blocks := fb2\<rparr>,
                    inode_table := (inode_table w)[k := (inode_table w ! k)
                       \<lparr>blocks := take (needed_blocks_of cfg sz) blks2
                            @ replicate (MAX_DIRECT_BLOCKS cfg - needed_blocks_of cfg sz) 0,
                        size_bytes := sz\<rparr>],
                    files := set_disk_data w p d2\<rparr>"
  using assms
  by (auto simp: fs_write_def Let_def split: option.splits if_splits sum.splits)

lemma fs_write_failed:
  "fs_write cfg filename data sz w = Inr (r, w') \<Longrightarrow> r \<noteq> 0 \<Longrightarrow> w' = w"
  by (auto simp: fs_write_def Let_def split: option.splits if_splits sum.splits)


lemma fs_write_keeps:
  assumes "fs_write cfg filename data sz w = Inr (r, w')"
  shows "can_open w' = can_open w \<and> disk_fd w' = disk_fd w"
proof (cases "r = 0")
  case True
  with fs_write_unfold [of cfg filename data sz w w'] assms show ?thesis by auto
next
  case False
  with fs_write_failed [OF assms] show ?thesis by simp
qed


lemma fs_write_success:
  assumes inv: "fs_inv cfg w" and wf: "wf_config cfg"
    and wr: "fs_write cfg filename data sz w = Inr (0, w')"
  shows "\<exists>p fname bytes k ns.
           disk_fd w = Some p \<and> filename = Some fname \<and> data = Some bytes \<and> 0 < sz
           \<and> length fname < MAX_FILENAME cfg
           \<and> find_inode cfg w fname = Some k
           \<and> length ns = needed_blocks_of cfg sz \<and> length ns \<le> MAX_DIRECT_BLOCKS cfg
           \<and> (\<forall>b \<in> set ns. 10 \<le> b)
           \<and> nat sz \<le> length bytes
           \<and> inode_table w' = (inode_table w)[k := (inode_table w ! k)
                 \<lparr>blocks := ns @ replicate (MAX_DIRECT_BLOCKS cfg - length ns) 0,
                  size_bytes := sz\<rparr>]
           \<and> disk_fd w' = Some p
           \<and> (\<forall>j < length ns. disk_data w' p (ns ! j) = block_image cfg bytes (nat sz) (length ns) j)
           \<and> fs_inv cfg w'"
proof -
  from fs_write_unfold [OF wr]
  obtain p fname bytes k bm1 fb1 bm2 fb2 blks2 d2 where
    u: "disk_fd w = Some p" "filename = Some fname" "data = Some bytes" "0 < sz"
      "length fname < MAX_FILENAME cfg" "find_inode cfg w fname = Some k"
    and fr: "free_file_blocks cfg (blocks (inode_table w ! k)) (block_bitmap w)
                 (free_blocks (sb w)) = Inr (bm1, fb1)"
    and al: "alloc_blocks cfg bytes (nat sz) (needed_blocks_of cfg sz) 0
                 (bm1, fb1, map (\<lambda>_. 0) (blocks (inode_table w ! k)), disk_data w p)
                 = Inr (bm2, fb2, blks2, d2)"
    and w': "w' = w\<lparr>block_bitmap := bm2, sb := (sb w)\<lparr>free_blocks := fb2\<rparr>,
                    inode_table := (inode_table w)[k := (inode_table w ! k)
                       \<lparr>blocks := take (needed_blocks_of cfg sz) blks2
                            @ replicate (MAX_DIRECT_BLOCKS cfg - needed_blocks_of cfg sz) 0,
                        size_bytes := sz\<rparr>],
                    files := set_disk_data w p d2\<rparr>"
    by blast
  let ?tbl = "inode_table w" and ?n = "needed_blocks_of cfg sz"
  let ?ino = "?tbl ! k"
  let ?z = "?ino\<lparr>blocks := map (\<lambda>_. 0) (blocks ?ino)\<rparr>"
  let ?x = "?ino\<lparr>blocks := take ?n blks2 @ replicate (MAX_DIRECT_BLOCKS cfg - ?n) 0,
                 size_bytes := sz\<rparr>"
  from find_inode_Some [OF u(6)] have kk: "k < length ?tbl" "used ?ino" by auto
  have ci: "core_inv cfg ?tbl (block_bitmap w) (free_blocks (sb w))"
    using inv by (simp add: fs_inv_def)
  have c8: "MAX_BLOCKS cfg \<le> 8 * BLOCK_SIZE cfg" and bpos: "0 < BLOCK_SIZE cfg"
    using wf by (simp_all add: wf_config_def)
  have "?ino \<in> set ?tbl" using kk(1) by simp
  with ci have lb: "length (blocks ?ino) = MAX_DIRECT_BLOCKS cfg" by (simp add: core_inv_def)
  have fz: "file_ptrs ?z = []" by (simp add: file_ptrs_def filter_empty_conv)
  from core_inv_free [OF ci kk c8 bpos fz] lb fr
  have c1: "core_inv cfg (?tbl[k := ?z]) bm1 fb1" by auto
  have k1: "k < length (?tbl[k := ?z])" using kk(1) by simp
  have o1: "file_ptrs ((?tbl[k := ?z]) ! k) = []" using kk(1) fz by simp
  have p1: "length (map (\<lambda>_. 0::nat) (blocks ?ino)) = MAX_DIRECT_BLOCKS cfg" using lb by simp
  have p2: "set (map (\<lambda>_. 0::nat) (blocks ?ino)) \<subseteq> {0}" by auto
  have p3: "used ?x" using kk(2) by simp
  have p4: "blocks ?x = take ?n blks2 @ replicate (MAX_DIRECT_BLOCKS cfg - ?n) 0" by simp
  from core_inv_alloc [OF c1 k1 o1 p1 p2 al c8 p3 p4]
  obtain ns where ns: "length ns = ?n" "?n \<le> MAX_DIRECT_BLOCKS cfg"
    "\<forall>b \<in> set ns. 10 \<le> b \<and> b < MAX_BLOCKS cfg \<and> b \<notin> set (all_ptrs (?tbl[k := ?z]))"
    "blocks ?x = ns @ replicate (MAX_DIRECT_BLOCKS cfg - ?n) 0"
    "\<forall>c. c \<notin> set ns \<longrightarrow> d2 c = disk_data w p c"
    "\<forall>j < ?n. d2 (ns ! j) = block_image cfg bytes (nat sz) ?n j"
    "0 < ?n \<longrightarrow> (?n - 1) * BLOCK_SIZE cfg + (nat sz - (?n - 1) * BLOCK_SIZE cfg) \<le> length bytes"
    "core_inv cfg ((?tbl[k := ?z])[k := ?x]) bm2 fb2"
    by (elim exE conjE) (rule that; assumption)
  from needed_blocks_bounds [OF u(4) bpos] ns(7)
  have len: "nat sz \<le> length bytes" by simp
  have xeq: "?x = ?ino\<lparr>blocks := ns @ replicate (MAX_DIRECT_BLOCKS cfg - length ns) 0,
                         size_bytes := sz\<rparr>"
    using ns(4) ns(1) by simp
  from inv u(1) obtain img where img: "files w p = Some img" by (auto simp: fs_inv_def)
  have dd: "disk_data w' p = d2" by (simp add: w' disk_data_def set_disk_data_def img)
  have cnt: "length (filter used (?tbl[k := ?x])) = length (filter used ?tbl)"
    using kk by (simp add: used_count_update [OF kk(1)] used_count_split [OF kk(1)])
  have c2: "core_inv cfg (?tbl[k := ?x]) bm2 fb2" using ns(8) by simp
  have inv': "fs_inv cfg w'"
    using inv c2 cnt u(1) img
    by (simp add: fs_inv_def w' set_disk_data_def)
  have tbl': "inode_table w' = ?tbl[k := ?x]" by (simp add: w')
  have e1: "disk_fd w' = Some p" using u(1) by (simp add: w')
  have e2: "\<forall>j < length ns. disk_data w' p (ns ! j)
               = block_image cfg bytes (nat sz) (length ns) j"
    using ns(6) by (simp add: dd ns(1))
  have e3: "\<forall>b \<in> set ns. 10 \<le> b" using ns(3) by blast
  have e4: "length ns \<le> MAX_DIRECT_BLOCKS cfg" using ns(1,2) by simp
  have e5: "inode_table w' = ?tbl[k := ?ino
                 \<lparr>blocks := ns @ replicate (MAX_DIRECT_BLOCKS cfg - length ns) 0,
                  size_bytes := sz\<rparr>]"
    using tbl' xeq by simp
  from u(1,2,3,4,5,6) ns(1) e4 e3 len e5 e1 e2 inv'
  show ?thesis by blast
qed

lemma fs_inv_write:
  assumes "fs_inv cfg w" and "wf_config cfg" and "fs_write cfg filename data sz w = Inr (r, w')"
  shows "fs_inv cfg w'"
proof (cases "r = 0")
  case True
  with fs_write_success [OF assms(1,2)] assms(3) show ?thesis by blast
next
  case False
  with fs_write_failed [OF assms(3)] assms(1) show ?thesis by simp
qed

text \<open>
  Mounting what fs_unmount has stored. The state \<open>v\<close> that mounts is any unmounted state
  with the disk files that fs_unmount left: the superblock, the bitmap and the table it
  had before the mount do not matter, fs_mount replaces them by the stored ones.
\<close>

lemma mount_after_unmount:
  assumes inv: "fs_inv cfg w" and p: "disk_fd w = Some p"
    and v: "files v = files (fs_unmount cfg w)" "disk_fd v = None" "can_open v p"
      "length (block_bitmap v) \<le> BLOCK_SIZE cfg" "length (inode_table v) \<le> MAX_FILES cfg"
  shows "\<exists>w'. fs_mount cfg p v = (0, w') \<and> disk_fd w' = Some p
           \<and> inode_table w' = inode_table w \<and> disk_data w' p = disk_data w p
           \<and> sb w' = sb w \<and> block_bitmap w' = block_bitmap w \<and> fs_inv cfg w'"
proof -
  from inv p obtain img where img: "files w p = Some img" by (auto simp: fs_inv_def)
  have lb: "length (block_bitmap w) = BLOCK_SIZE cfg" "length (inode_table w) = MAX_FILES cfg"
    using inv by (simp_all add: fs_inv_def core_inv_def)
  have g: "total_blocks (sb w) = int (MAX_BLOCKS cfg)" "block_size (sb w) = int (BLOCK_SIZE cfg)"
    "total_inodes (sb w) = int (MAX_FILES cfg)"
    using inv by (simp_all add: fs_inv_def)
  have fv: "files v p = Some (img\<lparr>img_sb := Some (sb w), img_bitmap := block_bitmap w,
                                   img_inodes := inode_table w\<rparr>)"
    by (simp add: v(1) fs_unmount_def p img)
  have m: "fs_mount cfg p v = (0, v\<lparr>sb := sb w, block_bitmap := block_bitmap w,
                                     inode_table := inode_table w, disk_fd := Some p\<rparr>)"
    using v(2,3,4,5) lb g by (simp add: fs_mount_def fv Let_def)
  have "fs_inv cfg (v\<lparr>sb := sb w, block_bitmap := block_bitmap w,
                       inode_table := inode_table w, disk_fd := Some p\<rparr>)"
    using inv by (simp add: fs_inv_def fv)
  then show ?thesis
    unfolding m by (simp add: disk_data_def fv img)
qed

lemma fs_inv_remount:
  assumes inv: "fs_inv cfg w" and p: "disk_fd w = Some p"
    and m: "fs_mount cfg p (fs_unmount cfg w) = (0, w')"
  shows "fs_inv cfg w'"
proof -
  let ?u = "fs_unmount cfg w"
  have u: "disk_fd ?u = None" "block_bitmap ?u = block_bitmap w" "inode_table ?u = inode_table w"
    by (simp_all add: fs_unmount_def p)
  have co: "can_open ?u p"
  proof (rule ccontr)
    assume "\<not> can_open ?u p"
    then have "fs_mount cfg p ?u = (-1, ?u)" by (simp add: fs_mount_def u(1))
    with m show False by simp
  qed
  have l: "length (block_bitmap ?u) \<le> BLOCK_SIZE cfg" "length (inode_table ?u) \<le> MAX_FILES cfg"
    using inv by (simp_all add: u fs_inv_def core_inv_def)
  from mount_after_unmount [OF inv p refl u(1) co l] m show ?thesis by auto
qed

lemma reachable_inv:
  assumes "wf_config cfg" and "reachable cfg w"
  shows "fs_inv cfg w"
  using assms(2)
proof (induction rule: reachable.induct)
  case (reach_remount w p w')
  then show ?case using fs_inv_remount by blast
next
  case (reach_mount path w0 w1 w2)
  then show ?case using fs_inv_mounted [OF assms(1)] by blast
next
  case (reach_create w filename r w')
  then show ?case using fs_inv_create by blast
next
  case (reach_delete w filename r w')
  then show ?case using fs_inv_delete assms(1) by blast
next
  case (reach_write w filename data sz r w')
  then show ?case using fs_inv_write assms(1) by blast
next
  case (reach_read w filename buf sz r bytes)
  then show ?case by simp
next
  case (reach_list w buf max_files r names)
  then show ?case by simp
qed



lemma fs_write_returns:
  assumes inv: "fs_inv cfg w" and wf: "wf_config cfg"
    and sz: "0 < sz" "sz \<le> int (MAX_DIRECT_BLOCKS cfg * BLOCK_SIZE cfg)"
      "sz \<le> int (MAX_FILES cfg * BLOCK_SIZE cfg)"
    and nm: "length fname < MAX_FILENAME cfg" "find_inode cfg w fname = Some k"
    and sp: "int (needed_blocks_of cfg sz) \<le> free_blocks (sb w)"
    and len: "nat sz \<le> length bytes"
  shows "\<exists>w'. fs_write cfg (Some fname) (Some bytes) sz w = Inr (0, w')"
proof -
  let ?tbl = "inode_table w" and ?n = "needed_blocks_of cfg sz"
  let ?ino = "?tbl ! k"
  let ?z = "?ino\<lparr>blocks := map (\<lambda>_. 0) (blocks ?ino)\<rparr>"
  from inv obtain p where p: "disk_fd w = Some p" by (auto simp: fs_inv_def)
  from find_inode_Some [OF nm(2)] have kk: "k < length ?tbl" "used ?ino" by auto
  have ci: "core_inv cfg ?tbl (block_bitmap w) (free_blocks (sb w))"
    using inv by (simp add: fs_inv_def)
  have c8: "MAX_BLOCKS cfg \<le> 8 * BLOCK_SIZE cfg" and bpos: "0 < BLOCK_SIZE cfg"
    and c10: "10 \<le> MAX_BLOCKS cfg"
    using wf by (simp_all add: wf_config_def)
  have "?ino \<in> set ?tbl" using kk(1) by simp
  with ci have lb: "length (blocks ?ino) = MAX_DIRECT_BLOCKS cfg" by (simp add: core_inv_def)
  have fz: "file_ptrs ?z = []" by (simp add: file_ptrs_def filter_empty_conv)
  have lz: "length (blocks ?z) = MAX_DIRECT_BLOCKS cfg" using lb by simp
  from core_inv_free [OF ci kk c8 bpos fz lz]
  obtain bm1 where fr: "free_file_blocks cfg (blocks ?ino) (block_bitmap w) (free_blocks (sb w))
        = Inr (bm1, free_blocks (sb w) + int (length (file_ptrs ?ino)))"
    and c1: "core_inv cfg (?tbl[k := ?z]) bm1 (free_blocks (sb w) + int (length (file_ptrs ?ino)))"
    by blast
  from core_inv_card_free [OF c1 c10] sp
  have card: "?n - 0 \<le> card {c. 10 \<le> c \<and> c < MAX_BLOCKS cfg \<and> \<not> bit_is_set bm1 c}"
    by simp
  from needed_blocks_bounds [OF sz(1) bpos]
  have nb: "(?n - 1) * BLOCK_SIZE cfg < nat sz" by simp
  have "(?n - 1) * BLOCK_SIZE cfg < MAX_DIRECT_BLOCKS cfg * BLOCK_SIZE cfg"
    using nb sz(1,2) by linarith
  then have "?n - 1 < MAX_DIRECT_BLOCKS cfg" by simp
  then have nmd: "?n \<le> MAX_DIRECT_BLOCKS cfg" by simp
  have l1: "length bm1 = BLOCK_SIZE cfg" using c1 by (simp add: core_inv_def)
  have nb': "(?n - 1) * BLOCK_SIZE cfg \<le> nat sz" using nb by simp
  from alloc_blocks_progress [OF l1 c8 nmd card len nb']
  obtain bm2 fb2 blks2 d2 where
    "alloc_blocks cfg bytes (nat sz) ?n 0
       (bm1, free_blocks (sb w) + int (length (file_ptrs ?ino)),
        map (\<lambda>_. 0) (blocks ?ino), disk_data w p) = Inr (bm2, fb2, blks2, d2)"
    by blast
  with fr p sz nm sp show ?thesis
    by (simp add: fs_write_def Let_def)
qed


lemma wf_config_fs_h: "wf_config fs_h"
  by (simp add: wf_config_def fs_h_def)

lemma reachable_with_a: "reachable cfg (with_a cfg)"
  unfolding with_a_def
  by (rule reach_create [OF reachable_mounted0, of _ _ "fst (fs_create cfg (Some ''a.txt'') (mounted0 cfg))"]) simp

lemma fs_write_with_a:
  "\<exists>w'. fs_write fs_h (Some ''a.txt'') (Some (replicate 5000 7)) 5000 (with_a fs_h) = Inr (0, w')"
proof (rule fs_write_returns [OF reachable_inv [OF wf_config_fs_h reachable_with_a] wf_config_fs_h])
  have c: "0 < MAX_FILES fs_h" "5 < MAX_FILENAME fs_h" by (simp_all add: fs_h_def)
  show "find_inode fs_h (with_a fs_h) ''a.txt'' = Some 0" by (rule find_inode_with_a [OF c])
  have "free_blocks (sb (with_a fs_h)) = int (MAX_BLOCKS fs_h) - 10"
    by (simp add: with_a_eq [OF c] fresh_superblock_def)
  then show "int (needed_blocks_of fs_h 5000) \<le> free_blocks (sb (with_a fs_h))"
    by (simp add: needed_blocks_of_def fs_h_def)
qed (simp_all add: fs_h_def)

lemma reachable_written: "reachable fs_h (written fs_h)"
proof -
  from fs_write_with_a obtain w' where
    w: "fs_write fs_h (Some ''a.txt'') (Some (replicate 5000 7)) 5000 (with_a fs_h) = Inr (0, w')"
    by blast
  then have "written fs_h = w'" by (simp add: written_def)
  with reach_write [OF reachable_with_a w] show ?thesis by simp
qed

subsection \<open>The counters and the blocks in reachable states\<close>

text \<open>
  As long as no write overruns \<^verbatim>\<open>blocks\<close>, the counters are right: in every state of the
  relation \<open>reachable\<close>, \<^verbatim>\<open>free_blocks\<close> plus the number of non-zero block pointers of the
  used inodes is \<^verbatim>\<open>total_blocks - 10\<close>, and \<^verbatim>\<open>free_inodes\<close> plus the number of used
  inodes is \<^verbatim>\<open>total_inodes\<close>.
\<close>

lemma reachable_counters:
  assumes "wf_config cfg" and "reachable cfg w"
  shows "free_blocks (sb w) + int (length (all_ptrs (inode_table w))) = total_blocks (sb w) - 10
         \<and> free_inodes (sb w) + int (length (filter used (inode_table w))) = total_inodes (sb w)"
  using reachable_inv [OF assms] by (simp add: fs_inv_def core_inv_def)

lemma file_ptrs_subset_all_ptrs:
  "i < length tbl \<Longrightarrow> set (file_ptrs (tbl ! i)) \<subseteq> set (all_ptrs tbl)"
  by (subst all_ptrs_split [of i tbl]) auto

lemma distinct_all_ptrs_disjoint:
  assumes "distinct (all_ptrs tbl)" and "i < j" and "j < length tbl"
  shows "set (file_ptrs (tbl ! i)) \<inter> set (file_ptrs (tbl ! j)) = {}"
proof -
  have "set (file_ptrs (take j tbl ! i)) \<subseteq> set (all_ptrs (take j tbl))"
    using assms(2,3) by (intro file_ptrs_subset_all_ptrs) simp
  then have "set (file_ptrs (tbl ! i)) \<subseteq> set (all_ptrs (take j tbl))"
    using assms(2) by simp
  moreover have "distinct (all_ptrs (take j tbl) @ file_ptrs (tbl ! j) @ all_ptrs (drop (Suc j) tbl))"
    using assms(1) all_ptrs_split [OF assms(3)] by simp
  ultimately show ?thesis by auto
qed

lemma distinct_all_ptrs_blocks_disjoint:
  assumes "distinct (all_ptrs tbl)"
  shows "blocks_disjoint tbl"
  unfolding blocks_disjoint_def
proof (intro allI impI ballI)
  fix i j b
  assume i: "i < length tbl" and j: "j < length tbl"
    and u: "i \<noteq> j \<and> used (tbl ! i) \<and> used (tbl ! j)"
    and b: "b \<in> set (blocks (tbl ! i))" "b \<noteq> 0"
  from b u have bi: "b \<in> set (file_ptrs (tbl ! i))" by (simp add: file_ptrs_def)
  show "b \<notin> set (blocks (tbl ! j))"
  proof
    assume "b \<in> set (blocks (tbl ! j))"
    with b(2) u have bj: "b \<in> set (file_ptrs (tbl ! j))" by (simp add: file_ptrs_def)
    from u have "i < j \<or> j < i" by auto
    then show False
    proof
      assume "i < j"
      from distinct_all_ptrs_disjoint [OF assms this j] bi bj show False by auto
    next
      assume "j < i"
      from distinct_all_ptrs_disjoint [OF assms this i] bi bj show False by auto
    qed
  qed
qed

text \<open>
  Likewise for the block pointers: in every state of the relation \<open>reachable\<close>, no two used
  inodes hold the same non-zero block index. What a write that overruns \<^verbatim>\<open>blocks\<close> stores
  into the records behind the written one is decided by the layout of the records in
  memory, which this embedding does not have.
\<close>

lemma reachable_blocks_disjoint:
  assumes "wf_config cfg" and "reachable cfg w"
  shows "blocks_disjoint (inode_table w)"
  using reachable_inv [OF assms]
  by (intro distinct_all_ptrs_blocks_disjoint) (simp add: fs_inv_def core_inv_def)


subsection \<open>Writing, then reading\<close>

lemma find_inode_from_cong:
  "map (\<lambda>x. (used x, name x)) tbl = map (\<lambda>x. (used x, name x)) tbl' \<Longrightarrow>
     find_inode_from cfg tbl f i = find_inode_from cfg tbl' f i"
proof (induction tbl arbitrary: tbl' i)
  case Nil
  then show ?case by simp
next
  case (Cons x xs)
  then obtain y ys where t: "tbl' = y # ys" by (cases tbl') auto
  with Cons.prems have "used x = used y" "name x = name y"
    "map (\<lambda>x. (used x, name x)) xs = map (\<lambda>x. (used x, name x)) ys" by auto
  with Cons.IH [of ys "Suc i"] show ?case by (simp add: t)
qed

lemma find_inode_update:
  assumes "k < length (inode_table w)" and "inode_table w' = (inode_table w)[k := x]"
    and "used x = used (inode_table w ! k)" and "name x = name (inode_table w ! k)"
  shows "find_inode cfg w' f = find_inode cfg w f"
proof -
  have "map (\<lambda>x. (used x, name x)) ((inode_table w)[k := x])
          = (map (\<lambda>x. (used x, name x)) (inode_table w))[k := (used x, name x)]"
    by (rule map_update)
  also have "\<dots> = map (\<lambda>x. (used x, name x)) (inode_table w)"
    using assms(1,3,4) by (simp add: list_update_same_conv)
  finally show ?thesis
    unfolding find_inode_def assms(2) by (rule find_inode_from_cong)
qed

lemma odd_a_eq:
  assumes "0 < MAX_FILES cfg" and "5 < MAX_FILENAME cfg"
  shows "odd_a cfg = (odd_disk cfg)\<lparr>
      sb := (fresh_superblock cfg)\<lparr>free_blocks := 7, free_inodes := - 2\<rparr>,
      block_bitmap := fresh_bitmap cfg,
      inode_table := (replicate (MAX_FILES cfg) (empty_inode cfg))[0 :=
        \<lparr>used = True, name = ''a.txt'', size_bytes = 0,
         blocks = replicate (MAX_DIRECT_BLOCKS cfg) 0\<rparr>],
      disk_fd := Some ''disk.img''\<rparr>"
proof -
  have m: "snd (fs_mount cfg ''disk.img'' (odd_disk cfg)) = (odd_disk cfg)\<lparr>
      sb := (fresh_superblock cfg)\<lparr>free_blocks := 7, free_inodes := - 1\<rparr>,
      block_bitmap := fresh_bitmap cfg,
      inode_table := replicate (MAX_FILES cfg) (empty_inode cfg),
      disk_fd := Some ''disk.img''\<rparr>"
    by (simp add: fs_mount_def odd_disk_def boot_def Let_def fresh_superblock_def)
  show ?thesis
    using assms unfolding odd_a_def m
    by (simp add: fs_create_def find_inode_def find_free_inode_def odd_disk_def boot_def)
qed

text \<open>
  Claim C1, as stated, fails in two ways. At size 0, fs_write returns -3 and writes
  nothing, and fs_read with size 0 returns -3, not 0. And where \<^verbatim>\<open>free_blocks\<close> is less than
  the number of blocks needed (here 7, for a write of 8 blocks to an empty file), fs_write
  returns -2 and writes nothing, and the fs_read that follows returns 0 bytes.
\<close>

theorem write_read_counterexample:
  "fs_write fs_h (Some ''a.txt'') (Some []) 0 (with_a fs_h) = Inr (-3, with_a fs_h)
   \<and> fs_read fs_h (Some ''a.txt'') True 0 (with_a fs_h) = Inr (-3, [])
   \<and> fs_write fs_h (Some ''a.txt'') (Some (replicate 32768 7)) 32768 (odd_a fs_h)
       = Inr (-2, odd_a fs_h)
   \<and> fs_read fs_h (Some ''a.txt'') True 32768 (odd_a fs_h) = Inr (0, [])"
proof -
  have c: "0 < MAX_FILES fs_h" "5 < MAX_FILENAME fs_h" by (simp_all add: fs_h_def)
  have "disk_fd (with_a fs_h) = Some ''disk.img''" by (simp add: with_a_eq [OF c] mounted0_eq)
  then have 1: "fs_write fs_h (Some ''a.txt'') (Some []) 0 (with_a fs_h) = Inr (-3, with_a fs_h)"
    "fs_read fs_h (Some ''a.txt'') True 0 (with_a fs_h) = Inr (-3, [])"
    by (simp_all add: fs_write_def fs_read_def)
  have d: "disk_fd (odd_a fs_h) = Some ''disk.img''" by (simp add: odd_a_eq [OF c])
  have k: "find_inode fs_h (odd_a fs_h) ''a.txt'' = Some 0"
    using c by (cases "MAX_FILES fs_h") (simp_all add: odd_a_eq [OF c] find_inode_def strncmp_eq_def)
  have f: "free_blocks (sb (odd_a fs_h)) = 7" by (simp add: odd_a_eq [OF c])
  have n: "needed_blocks_of fs_h 32768 = 8" by (simp add: needed_blocks_of_def fs_h_def)
  have m: "(32768::int) \<le> int (MAX_FILES fs_h * BLOCK_SIZE fs_h)" "length ''a.txt'' < MAX_FILENAME fs_h"
    by (simp_all add: fs_h_def)
  have i0: "inode_table (odd_a fs_h) ! 0
      = \<lparr>used = True, name = ''a.txt'', size_bytes = 0,
         blocks = replicate (MAX_DIRECT_BLOCKS fs_h) 0\<rparr>"
    using c by (simp add: odd_a_eq [OF c])
  have 2: "fs_write fs_h (Some ''a.txt'') (Some (replicate 32768 7)) 32768 (odd_a fs_h)
       = Inr (-2, odd_a fs_h)"
    using m by (simp add: fs_write_def d k f n Let_def)
  have 3: "fs_read fs_h (Some ''a.txt'') True 32768 (odd_a fs_h) = Inr (0, [])"
    using m by (simp add: fs_read_def d k i0 read_blocks_done Let_def)
  from 1 2 3 show ?thesis by simp
qed

lemma write_then_read:
  assumes wf: "wf_config cfg" and inv: "fs_inv cfg w"
    and nm: "length fname < MAX_FILENAME cfg" "find_inode cfg w fname \<noteq> None"
    and s: "0 < s" "s \<le> int (MAX_DIRECT_BLOCKS cfg * BLOCK_SIZE cfg)"
      "s \<le> int (MAX_FILES cfg * BLOCK_SIZE cfg)"
    and sp: "int (needed_blocks_of cfg s) \<le> free_blocks (sb w)"
    and len: "nat s \<le> length data"
  shows "\<exists>w'. fs_write cfg (Some fname) (Some data) s w = Inr (0, w') \<and> fs_inv cfg w'
           \<and> fs_read cfg (Some fname) True s w' = Inr (s, take (nat s) data)"
proof -
  from nm(2) obtain k0 where k0: "find_inode cfg w fname = Some k0" by auto
  from fs_write_returns [OF inv wf s nm(1) k0 sp len]
  obtain w' where wr: "fs_write cfg (Some fname) (Some data) s w = Inr (0, w')" by blast
  from fs_write_success [OF inv wf wr] k0
  obtain p ns where
    d: "disk_fd w' = Some p" and n: "length ns = needed_blocks_of cfg s"
    and ge: "\<forall>b \<in> set ns. 10 \<le> b"
    and tbl: "inode_table w' = (inode_table w)[k0 := (inode_table w ! k0)
                 \<lparr>blocks := ns @ replicate (MAX_DIRECT_BLOCKS cfg - length ns) 0,
                  size_bytes := s\<rparr>]"
    and dat: "\<forall>j < length ns. disk_data w' p (ns ! j)
                 = block_image cfg data (nat s) (length ns) j"
    and inv': "fs_inv cfg w'"
    by auto
  let ?x = "(inode_table w ! k0)\<lparr>blocks := ns @ replicate (MAX_DIRECT_BLOCKS cfg - length ns) 0,
                  size_bytes := s\<rparr>"
  from find_inode_Some [OF k0] have kk: "k0 < length (inode_table w)" by simp
  have fi: "find_inode cfg w' fname = Some k0"
    using find_inode_update [OF kk tbl, of cfg fname] k0 by simp
  have tgt: "inode_table w' ! k0 = ?x" using kk by (simp add: tbl)
  have bpos: "0 < BLOCK_SIZE cfg" using wf by (simp add: wf_config_def)
  have pre: "\<forall>j < length ns. 10 \<le> ns ! j
               \<and> disk_data w' p (ns ! j) = block_image cfg data (nat s) (length ns) j"
    using ge dat by simp
  from needed_blocks_bounds [OF s(1) bpos]
  have b1: "(length ns - 1) * BLOCK_SIZE cfg < nat s" and b2: "nat s \<le> length ns * BLOCK_SIZE cfg"
    by (simp_all add: n)
  from read_blocks_written [OF pre len b1 b2, of 0 "replicate (MAX_DIRECT_BLOCKS cfg - length ns) 0"]
  have rd: "read_blocks cfg (disk_data w' p)
              (ns @ replicate (MAX_DIRECT_BLOCKS cfg - length ns) 0) (nat s) []
            = Inr (take (nat s) data)"
    by simp
  have "fs_read cfg (Some fname) True s w' = Inr (s, take (nat s) data)"
    using d nm(1) s(1) fi len by (simp add: fs_read_def tgt rd)
  with wr inv' show ?thesis by blast
qed

lemma free_bits_card:
  "free_bits cfg bm = card {c. 10 \<le> c \<and> c < MAX_BLOCKS cfg \<and> \<not> bit_is_set bm c}"
proof -
  have "set (filter (\<lambda>c. \<not> bit_is_set bm c) [10..<MAX_BLOCKS cfg])
          = {c. 10 \<le> c \<and> c < MAX_BLOCKS cfg \<and> \<not> bit_is_set bm c}"
    by auto
  moreover have "distinct (filter (\<lambda>c. \<not> bit_is_set bm c) [10..<MAX_BLOCKS cfg])" by simp
  ultimately show ?thesis unfolding free_bits_def by (metis distinct_card)
qed

lemma fs_inv_free_bits:
  assumes "fs_inv cfg w" and "wf_config cfg"
  shows "int (free_bits cfg (block_bitmap w)) = free_blocks (sb w)"
proof -
  have "core_inv cfg (inode_table w) (block_bitmap w) (free_blocks (sb w))"
    using assms(1) by (simp add: fs_inv_def)
  moreover have "10 \<le> MAX_BLOCKS cfg" using assms(2) by (simp add: wf_config_def)
  ultimately show ?thesis unfolding free_bits_card by (rule core_inv_card_free)
qed

lemma fs_inv_ptrs_in_bitmap:
  assumes "fs_inv cfg w" and "wf_config cfg"
  shows "\<forall>ino \<in> set (inode_table w). used ino
           \<longrightarrow> (\<forall>b \<in> set (blocks ino). b div 8 < BLOCK_SIZE cfg)"
proof (intro ballI impI)
  fix ino b
  assume ino: "ino \<in> set (inode_table w)" and u: "used ino" and b: "b \<in> set (blocks ino)"
  have c8: "MAX_BLOCKS cfg \<le> 8 * BLOCK_SIZE cfg" and bpos: "0 < BLOCK_SIZE cfg"
    using assms(2) by (simp_all add: wf_config_def)
  show "b div 8 < BLOCK_SIZE cfg"
  proof (cases "b = 0")
    case True
    then show ?thesis using bpos by simp
  next
    case False
    from ino obtain i where i: "i < length (inode_table w)" "inode_table w ! i = ino"
      by (auto simp: in_set_conv_nth)
    from u b False have "b \<in> set (file_ptrs ino)" by (simp add: file_ptrs_def)
    with file_ptrs_subset_all_ptrs [OF i(1)] i(2) have "b \<in> set (all_ptrs (inode_table w))"
      by auto
    with assms(1) have "b < MAX_BLOCKS cfg" by (simp add: fs_inv_def core_inv_def)
    with c8 show ?thesis by simp
  qed
qed

text \<open>
  fs_write returns 0 where its arguments pass the checks and its two loops stay within
  the arrays: the pointers it frees lie within the bitmap, and the bitmap has a free data
  block for each block it needs.
\<close>

lemma fs_write_succeeds:
  assumes wf: "wf_config cfg" and p: "disk_fd w = Some p" and arr: "c_arrays cfg w"
    and rng: "\<forall>b \<in> set (blocks (inode_table w ! k)). b div 8 < BLOCK_SIZE cfg"
    and sz: "0 < sz" "sz \<le> int (MAX_DIRECT_BLOCKS cfg * BLOCK_SIZE cfg)"
      "sz \<le> int (MAX_FILES cfg * BLOCK_SIZE cfg)"
    and nm: "length fname < MAX_FILENAME cfg" "find_inode cfg w fname = Some k"
    and sp: "int (needed_blocks_of cfg sz) \<le> free_blocks (sb w)"
    and fbits: "needed_blocks_of cfg sz \<le> free_bits cfg (block_bitmap w)"
    and len: "nat sz \<le> length bytes"
  shows "\<exists>w'. fs_write cfg (Some fname) (Some bytes) sz w = Inr (0, w')"
proof -
  let ?n = "needed_blocks_of cfg sz" and ?ino = "inode_table w ! k"
  have c8: "MAX_BLOCKS cfg \<le> 8 * BLOCK_SIZE cfg" and bpos: "0 < BLOCK_SIZE cfg"
    using wf by (simp_all add: wf_config_def)
  have lbm: "length (block_bitmap w) = BLOCK_SIZE cfg" using arr by (simp add: c_arrays_def)
  from free_file_blocks_Inr [OF rng lbm, of "free_blocks (sb w)"]
  obtain bm1 where
    fr: "free_file_blocks cfg (blocks ?ino) (block_bitmap w) (free_blocks (sb w))
           = Inr (bm1, free_blocks (sb w) + int (length (filter (\<lambda>b. b \<noteq> 0) (blocks ?ino))))"
    and l1: "length bm1 = length (block_bitmap w)"
    and b1: "\<forall>c. bit_is_set bm1 c \<longleftrightarrow>
               bit_is_set (block_bitmap w) c \<and> \<not> (c \<in> set (blocks ?ino) \<and> c \<noteq> 0)"
    by blast
  let ?F = "{c. 10 \<le> c \<and> c < MAX_BLOCKS cfg \<and> \<not> bit_is_set (block_bitmap w) c}"
  let ?F1 = "{c. 10 \<le> c \<and> c < MAX_BLOCKS cfg \<and> \<not> bit_is_set bm1 c}"
  have "?F \<subseteq> ?F1" using b1 by auto
  then have "card ?F \<le> card ?F1" by (intro card_mono) auto
  with fbits have card: "?n - 0 \<le> card ?F1" by (simp add: free_bits_card)
  from needed_blocks_bounds [OF sz(1) bpos]
  have nb: "(?n - 1) * BLOCK_SIZE cfg < nat sz" by simp
  have "(?n - 1) * BLOCK_SIZE cfg < MAX_DIRECT_BLOCKS cfg * BLOCK_SIZE cfg"
    using nb sz(1,2) by linarith
  then have "?n - 1 < MAX_DIRECT_BLOCKS cfg" by simp
  then have nmd: "?n \<le> MAX_DIRECT_BLOCKS cfg" by simp
  have l1': "length bm1 = BLOCK_SIZE cfg" using l1 lbm by simp
  have nb': "(?n - 1) * BLOCK_SIZE cfg \<le> nat sz" using nb by simp
  from alloc_blocks_progress [OF l1' c8 nmd card len nb']
  obtain bm2 fb2 blks2 d2 where
    "alloc_blocks cfg bytes (nat sz) ?n 0
       (bm1, free_blocks (sb w) + int (length (filter (\<lambda>b. b \<noteq> 0) (blocks ?ino))),
        map (\<lambda>_. 0) (blocks ?ino), disk_data w p) = Inr (bm2, fb2, blks2, d2)"
    by blast
  with fr p sz nm sp show ?thesis
    by (simp add: fs_write_def Let_def)
qed

text \<open>
  After a call of fs_write that returned 0, fs_read of the same size returns the data.
  Nothing is asked of the state but that its arrays have their C sizes and that the mounted
  disk file exists.
\<close>

lemma read_after_write:
  assumes wf: "wf_config cfg" and arr: "c_arrays cfg w"
    and p: "disk_fd w = Some p" and fl: "files w p \<noteq> None"
    and wr: "fs_write cfg (Some fname) (Some data) s w = Inr (0, w')"
  shows "fs_read cfg (Some fname) True s w' = Inr (s, take (nat s) data)"
proof -
  let ?tbl = "inode_table w" and ?n = "needed_blocks_of cfg s"
  from fs_write_unfold [OF wr] p
  obtain k bm1 fb1 bm2 fb2 blks2 d2 where
    u: "0 < s" "length fname < MAX_FILENAME cfg" "find_inode cfg w fname = Some k"
    and fr: "free_file_blocks cfg (blocks (?tbl ! k)) (block_bitmap w) (free_blocks (sb w))
           = Inr (bm1, fb1)"
    and al: "alloc_blocks cfg data (nat s) ?n 0
                 (bm1, fb1, map (\<lambda>_. 0) (blocks (?tbl ! k)), disk_data w p)
                 = Inr (bm2, fb2, blks2, d2)"
    and w': "w' = w\<lparr>block_bitmap := bm2, sb := (sb w)\<lparr>free_blocks := fb2\<rparr>,
                    inode_table := ?tbl[k := (?tbl ! k)
                       \<lparr>blocks := take ?n blks2 @ replicate (MAX_DIRECT_BLOCKS cfg - ?n) 0,
                        size_bytes := s\<rparr>],
                    files := set_disk_data w p d2\<rparr>"
    by auto
  from find_inode_Some [OF u(3)] have kk: "k < length ?tbl" by simp
  have c8: "MAX_BLOCKS cfg \<le> 8 * BLOCK_SIZE cfg" and bpos: "0 < BLOCK_SIZE cfg"
    using wf by (simp_all add: wf_config_def)
  have lbm: "length (block_bitmap w) = BLOCK_SIZE cfg" using arr by (simp add: c_arrays_def)
  from free_file_blocks_Inr_bits [OF fr lbm bpos]
  have l1: "length bm1 = BLOCK_SIZE cfg" using lbm by simp
  have "?tbl ! k \<in> set ?tbl" using kk by simp
  with arr have lz: "length (map (\<lambda>_. 0::nat) (blocks (?tbl ! k))) = MAX_DIRECT_BLOCKS cfg"
    by (simp add: c_arrays_def)
  from alloc_blocks_Inr [OF al l1 c8 _ lz]
  obtain ns where ns: "length ns = ?n"
    "\<forall>c \<in> set ns. 10 \<le> c \<and> c < MAX_BLOCKS cfg \<and> \<not> bit_is_set bm1 c"
    "blks2 = ns @ drop ?n (map (\<lambda>_. 0) (blocks (?tbl ! k)))"
    "\<forall>j < ?n. d2 (ns ! j) = block_image cfg data (nat s) ?n j"
    "0 < ?n \<longrightarrow> (?n - 1) * BLOCK_SIZE cfg + (nat s - (?n - 1) * BLOCK_SIZE cfg) \<le> length data"
    by auto
  from needed_blocks_bounds [OF u(1) bpos] ns(5)
  have len: "nat s \<le> length data" by simp
  have tk: "take ?n blks2 = ns" using ns(1,3) by simp
  from fl obtain img where img: "files w p = Some img" by auto
  have dd: "disk_data w' p = d2" by (simp add: w' disk_data_def set_disk_data_def img)
  let ?x = "(?tbl ! k)\<lparr>blocks := ns @ replicate (MAX_DIRECT_BLOCKS cfg - length ns) 0,
                  size_bytes := s\<rparr>"
  have tbl: "inode_table w' = ?tbl[k := ?x]" by (simp add: w' tk ns(1))
  have d: "disk_fd w' = Some p" using p by (simp add: w')
  have fi: "find_inode cfg w' fname = Some k"
    using find_inode_update [OF kk tbl, of cfg fname] u(3) by simp
  have tgt: "inode_table w' ! k = ?x" using kk by (simp add: tbl)
  have pre: "\<forall>j < length ns. 10 \<le> ns ! j
               \<and> disk_data w' p (ns ! j) = block_image cfg data (nat s) (length ns) j"
    using ns(2,4) by (simp add: dd ns(1))
  from needed_blocks_bounds [OF u(1) bpos]
  have b1: "(length ns - 1) * BLOCK_SIZE cfg < nat s" and b2: "nat s \<le> length ns * BLOCK_SIZE cfg"
    by (simp_all add: ns(1))
  from read_blocks_written [OF pre len b1 b2, of 0 "replicate (MAX_DIRECT_BLOCKS cfg - length ns) 0"]
  have rd: "read_blocks cfg (disk_data w' p)
              (ns @ replicate (MAX_DIRECT_BLOCKS cfg - length ns) 0) (nat s) []
            = Inr (take (nat s) data)"
    by simp
  show ?thesis
    using d u(1,2) fi len by (simp add: fs_read_def tgt rd)
qed

text \<open>
  Claim C1, amended. In every mounted session (the arrays have their C sizes, the mounted
  disk file exists), for the name of an existing file, data of at least \<open>s\<close> bytes and a
  size \<open>s\<close> with \<open>0 < s \<le> MAX_DIRECT_BLOCKS * BLOCK_SIZE\<close> (and within the bound
  \<open>MAX_FILES * BLOCK_SIZE\<close> that fs_write checks): when \<^verbatim>\<open>free_blocks\<close> is at least the
  number of blocks needed, and the call stays within the bitmap (the block pointers of the
  used inodes lie within it, and it marks at least that many data blocks free), fs_write
  returns 0 and fs_read of \<open>s\<close> bytes then returns \<open>s\<close> and the first \<open>s\<close> bytes of the data.
\<close>

theorem write_read_roundtrip:
  assumes wf: "wf_config cfg"
    and mnt: "disk_fd w = Some p" "files w p \<noteq> None" and arr: "c_arrays cfg w"
    and rng: "\<forall>ino \<in> set (inode_table w). used ino
                \<longrightarrow> (\<forall>b \<in> set (blocks ino). b div 8 < BLOCK_SIZE cfg)"
    and nm: "length fname < MAX_FILENAME cfg" "find_inode cfg w fname \<noteq> None"
    and s: "0 < s" "s \<le> int (MAX_DIRECT_BLOCKS cfg * BLOCK_SIZE cfg)"
      "s \<le> int (MAX_FILES cfg * BLOCK_SIZE cfg)"
    and sp: "int (needed_blocks_of cfg s) \<le> free_blocks (sb w)"
    and fbits: "needed_blocks_of cfg s \<le> free_bits cfg (block_bitmap w)"
    and len: "nat s \<le> length data"
  shows "\<exists>w'. fs_write cfg (Some fname) (Some data) s w = Inr (0, w')
           \<and> fs_read cfg (Some fname) True s w' = Inr (s, take (nat s) data)"
proof -
  from nm(2) obtain k where k: "find_inode cfg w fname = Some k" by auto
  from find_inode_Some [OF k] have kk: "k < length (inode_table w)" "used (inode_table w ! k)"
    by auto
  then have "inode_table w ! k \<in> set (inode_table w)" by simp
  with rng kk(2) have r: "\<forall>b \<in> set (blocks (inode_table w ! k)). b div 8 < BLOCK_SIZE cfg"
    by blast
  from fs_write_succeeds [OF wf mnt(1) arr r s nm(1) k sp fbits len]
  obtain w' where wr: "fs_write cfg (Some fname) (Some data) s w = Inr (0, w')" by blast
  from read_after_write [OF wf arr mnt wr] wr show ?thesis by blast
qed


subsection \<open>The space check of fs_write\<close>

text \<open>
  Claim C4, as stated, fails: the size is compared with \<open>MAX_FILES * BLOCK_SIZE\<close> before
  the space check. A write of 10448896 bytes (2551 blocks) to an existing file of a fresh
  disk, which has 2550 free blocks, returns -3, not -2.
\<close>

theorem write_space_check_counterexample:
  "find_inode fs_h (with_a fs_h) ''a.txt'' = Some 0
   \<and> disk_fd (with_a fs_h) \<noteq> None
   \<and> free_blocks (sb (with_a fs_h)) < int (needed_blocks_of fs_h 10448896)
   \<and> fs_write fs_h (Some ''a.txt'') (Some (replicate 10448896 0)) 10448896 (with_a fs_h)
       = Inr (-3, with_a fs_h)"
proof -
  have c: "0 < MAX_FILES fs_h" "5 < MAX_FILENAME fs_h" by (simp_all add: fs_h_def)
  have d: "disk_fd (with_a fs_h) = Some ''disk.img''" by (simp add: with_a_eq [OF c] mounted0_eq)
  have "free_blocks (sb (with_a fs_h)) = int (MAX_BLOCKS fs_h) - 10"
    by (simp add: with_a_eq [OF c] fresh_superblock_def)
  then have f: "free_blocks (sb (with_a fs_h)) < int (needed_blocks_of fs_h 10448896)"
    by (simp add: needed_blocks_of_def fs_h_def)
  have "fs_write fs_h (Some ''a.txt'') (Some (replicate 10448896 0)) 10448896 (with_a fs_h)
       = Inr (-3, with_a fs_h)"
    using d by (simp add: fs_write_def) (simp add: fs_h_def)
  with find_inode_with_a [OF c] d f show ?thesis by simp
qed

text \<open>
  Claim C4, amended. In every mounted state, for the name of an existing file, non-null
  data and a size with \<open>0 < size \<le> MAX_FILES * BLOCK_SIZE\<close>: if \<^verbatim>\<open>free_blocks\<close> is less
  than the number of blocks needed, fs_write returns -2 and the whole state (counters,
  bitmap, inodes, disk blocks) is the one before the call.
\<close>

theorem write_space_check:
  assumes "disk_fd w \<noteq> None" and "length fname < MAX_FILENAME cfg"
    and "find_inode cfg w fname \<noteq> None"
    and "0 < sz" and "sz \<le> int (MAX_FILES cfg * BLOCK_SIZE cfg)"
    and "free_blocks (sb w) < int (needed_blocks_of cfg sz)"
  shows "fs_write cfg (Some fname) (Some bytes) sz w = Inr (-2, w)"
  using assms by (auto simp: fs_write_def Let_def)

theorem write_space_check_witness:
  "fs_write fs_h (Some ''a.txt'') (Some (replicate 32768 7)) 32768 (odd_a fs_h)
     = Inr (-2, odd_a fs_h)"
proof -
  have c: "0 < MAX_FILES fs_h" "5 < MAX_FILENAME fs_h" by (simp_all add: fs_h_def)
  have 1: "disk_fd (odd_a fs_h) \<noteq> None" by (simp add: odd_a_eq [OF c])
  have 2: "length ''a.txt'' < MAX_FILENAME fs_h" by (simp add: fs_h_def)
  have 3: "find_inode fs_h (odd_a fs_h) ''a.txt'' \<noteq> None"
    using c by (cases "MAX_FILES fs_h") (simp_all add: odd_a_eq [OF c] find_inode_def strncmp_eq_def)
  have 4: "(32768::int) \<le> int (MAX_FILES fs_h * BLOCK_SIZE fs_h)" by (simp add: fs_h_def)
  have "free_blocks (sb (odd_a fs_h)) = 7" by (simp add: odd_a_eq [OF c])
  then have 5: "free_blocks (sb (odd_a fs_h)) < int (needed_blocks_of fs_h 32768)"
    by (simp add: needed_blocks_of_def fs_h_def)
  show ?thesis using write_space_check [OF 1 2 3 _ 4 5] by simp
qed

subsection \<open>The bound on the size in fs_write\<close>

lemma alloc_blocks_overflow:
  assumes "length bm = BLOCK_SIZE cfg" and "MAX_BLOCKS cfg \<le> 8 * BLOCK_SIZE cfg"
    and "MAX_DIRECT_BLOCKS cfg < n" and "i \<le> MAX_DIRECT_BLOCKS cfg"
    and "Suc (MAX_DIRECT_BLOCKS cfg) - i
           \<le> card {c. 10 \<le> c \<and> c < MAX_BLOCKS cfg \<and> \<not> bit_is_set bm c}"
    and "MAX_DIRECT_BLOCKS cfg * BLOCK_SIZE cfg \<le> length data"
  shows "alloc_blocks cfg data sz n i (bm, fb, blks, d) = Inl BlocksIndexOutOfBounds"
  using assms(1,4,5)
proof (induction "MAX_DIRECT_BLOCKS cfg - i" arbitrary: i bm fb blks d)
  case 0
  let ?F = "{c. 10 \<le> c \<and> c < MAX_BLOCKS cfg \<and> \<not> bit_is_set bm c}"
  from 0 have i: "i = MAX_DIRECT_BLOCKS cfg" by simp
  from "0.prems"(3) i have "0 < card ?F" by simp
  then have "?F \<noteq> {}" by (metis card.empty less_irrefl)
  then obtain c where c: "10 \<le> c" "c < MAX_BLOCKS cfg" "\<not> bit_is_set bm c" by auto
  have "find_free_block cfg bm \<noteq> None"
    using find_free_block_None [of cfg bm c] c by auto
  then obtain b where b: "find_free_block cfg bm = Some b" by auto
  show ?case using i assms(3) b by (subst alloc_blocks.simps) simp
next
  case (Suc m)
  let ?F = "{c. 10 \<le> c \<and> c < MAX_BLOCKS cfg \<and> \<not> bit_is_set bm c}"
  from Suc.hyps(2) have lt: "i < MAX_DIRECT_BLOCKS cfg" by simp
  from Suc.prems(3) lt have "0 < card ?F" by simp
  then have "?F \<noteq> {}" by (metis card.empty less_irrefl)
  then obtain c where c: "10 \<le> c" "c < MAX_BLOCKS cfg" "\<not> bit_is_set bm c" by auto
  have "find_free_block cfg bm \<noteq> None"
    using find_free_block_None [of cfg bm c] c by auto
  then obtain b where b: "find_free_block cfg bm = Some b" by auto
  from find_free_block_Some [OF b]
  have bb: "10 \<le> b" "b < MAX_BLOCKS cfg" "\<not> bit_is_set bm b" by auto
  with Suc.prems(1) assms(2) have bd: "b div 8 < length bm" by simp
  have ne: "i \<noteq> n - 1" using lt assms(3) by simp
  have "Suc i * BLOCK_SIZE cfg \<le> MAX_DIRECT_BLOCKS cfg * BLOCK_SIZE cfg"
    using lt by (intro mult_le_mono1) simp
  with assms(6) have len: "i * BLOCK_SIZE cfg + BLOCK_SIZE cfg \<le> length data" by simp
  have cardF: "card (?F - {b}) = card ?F - 1" using bb by (simp add: card_Diff_singleton)
  have m: "m = MAX_DIRECT_BLOCKS cfg - Suc i" using Suc.hyps(2) by simp
  have crd: "Suc (MAX_DIRECT_BLOCKS cfg) - Suc i
      \<le> card {c. 10 \<le> c \<and> c < MAX_BLOCKS cfg \<and> \<not> bit_is_set (mark_block_used bm b) c}"
    unfolding free_bits_mark_used [OF bd] cardF using Suc.prems(3) by simp
  have l': "length (mark_block_used bm b) = BLOCK_SIZE cfg" using Suc.prems(1) by simp
  have si: "Suc i \<le> MAX_DIRECT_BLOCKS cfg" using lt by simp
  from Suc.hyps(1) [OF m l' si crd]
  have "alloc_blocks cfg data sz n (Suc i)
          (mark_block_used bm b, fb - 1, blks[i := b],
           d(b := take (BLOCK_SIZE cfg) (drop (i * BLOCK_SIZE cfg) data)
                    @ replicate (BLOCK_SIZE cfg - BLOCK_SIZE cfg) 0))
        = Inl BlocksIndexOutOfBounds" .
  then show ?case
    using lt assms(3) b ne len by (subst alloc_blocks.simps) (simp add: Let_def)
qed

lemma fs_write_overflow:
  assumes inv: "fs_inv cfg w" and wf: "wf_config cfg"
    and sz: "int (MAX_DIRECT_BLOCKS cfg * BLOCK_SIZE cfg) < sz"
      "sz \<le> int (MAX_FILES cfg * BLOCK_SIZE cfg)"
    and nm: "length fname < MAX_FILENAME cfg" "find_inode cfg w fname = Some k"
    and sp: "int (needed_blocks_of cfg sz) \<le> free_blocks (sb w)"
    and len: "nat sz \<le> length bytes"
  shows "fs_write cfg (Some fname) (Some bytes) sz w = Inl BlocksIndexOutOfBounds"
proof -
  let ?tbl = "inode_table w" and ?n = "needed_blocks_of cfg sz"
  let ?ino = "?tbl ! k"
  let ?z = "?ino\<lparr>blocks := map (\<lambda>_. 0) (blocks ?ino)\<rparr>"
  from inv obtain p where p: "disk_fd w = Some p" by (auto simp: fs_inv_def)
  from find_inode_Some [OF nm(2)] have kk: "k < length ?tbl" "used ?ino" by auto
  have ci: "core_inv cfg ?tbl (block_bitmap w) (free_blocks (sb w))"
    using inv by (simp add: fs_inv_def)
  have c8: "MAX_BLOCKS cfg \<le> 8 * BLOCK_SIZE cfg" and bpos: "0 < BLOCK_SIZE cfg"
    and c10: "10 \<le> MAX_BLOCKS cfg"
    using wf by (simp_all add: wf_config_def)
  have pos: "0 < sz" using sz(1) by linarith
  have "?ino \<in> set ?tbl" using kk(1) by simp
  with ci have lb: "length (blocks ?ino) = MAX_DIRECT_BLOCKS cfg" by (simp add: core_inv_def)
  have fz: "file_ptrs ?z = []" by (simp add: file_ptrs_def filter_empty_conv)
  have lz: "length (blocks ?z) = MAX_DIRECT_BLOCKS cfg" using lb by simp
  from core_inv_free [OF ci kk c8 bpos fz lz]
  obtain bm1 where fr: "free_file_blocks cfg (blocks ?ino) (block_bitmap w) (free_blocks (sb w))
        = Inr (bm1, free_blocks (sb w) + int (length (file_ptrs ?ino)))"
    and c1: "core_inv cfg (?tbl[k := ?z]) bm1 (free_blocks (sb w) + int (length (file_ptrs ?ino)))"
    by blast
  from needed_blocks_bounds [OF pos bpos]
  have "nat sz \<le> ?n * BLOCK_SIZE cfg" by simp
  with sz(1) have "MAX_DIRECT_BLOCKS cfg * BLOCK_SIZE cfg < ?n * BLOCK_SIZE cfg" by linarith
  then have big: "MAX_DIRECT_BLOCKS cfg < ?n" by simp
  from core_inv_card_free [OF c1 c10] sp big
  have card: "Suc (MAX_DIRECT_BLOCKS cfg) - 0
      \<le> card {c. 10 \<le> c \<and> c < MAX_BLOCKS cfg \<and> \<not> bit_is_set bm1 c}"
    by linarith
  have l1: "length bm1 = BLOCK_SIZE cfg" using c1 by (simp add: core_inv_def)
  have dl: "MAX_DIRECT_BLOCKS cfg * BLOCK_SIZE cfg \<le> length bytes" using sz(1) len by linarith
  from alloc_blocks_overflow [OF l1 c8 big _ card dl]
  have "alloc_blocks cfg bytes (nat sz) ?n 0
       (bm1, free_blocks (sb w) + int (length (file_ptrs ?ino)),
        map (\<lambda>_. 0) (blocks ?ino), disk_data w p) = Inl BlocksIndexOutOfBounds"
    by simp
  moreover have npos: "(sz \<le> 0) = False" using pos by simp
  ultimately show ?thesis
    using fr p sz(2) nm sp by (simp add: fs_write_def Let_def npos)
qed

text \<open>
  Claim C5 does not hold of the code: fs_write accepts every size up to
  \<open>MAX_FILES * BLOCK_SIZE\<close>, and a size above \<open>MAX_DIRECT_BLOCKS * BLOCK_SIZE\<close> makes the
  allocation loop store to \<^verbatim>\<open>blocks[MAX_DIRECT_BLOCKS]\<close>. Here: 49153 bytes, 13 blocks, written
  to a new file of a fresh disk.
\<close>

theorem fs_write_overruns_blocks:
  "fs_write fs_h (Some ''a.txt'') (Some (replicate 49153 7)) 49153 (with_a fs_h)
     = Inl BlocksIndexOutOfBounds"
proof (rule fs_write_overflow [OF reachable_inv [OF wf_config_fs_h reachable_with_a] wf_config_fs_h])
  have c: "0 < MAX_FILES fs_h" "5 < MAX_FILENAME fs_h" by (simp_all add: fs_h_def)
  show "find_inode fs_h (with_a fs_h) ''a.txt'' = Some 0" by (rule find_inode_with_a [OF c])
  have "free_blocks (sb (with_a fs_h)) = int (MAX_BLOCKS fs_h) - 10"
    by (simp add: with_a_eq [OF c] fresh_superblock_def)
  then show "int (needed_blocks_of fs_h 49153) \<le> free_blocks (sb (with_a fs_h))"
    by (simp add: needed_blocks_of_def fs_h_def)
qed (simp_all add: fs_h_def)


text \<open>
  Claim C2 does not hold of the code, by the same write. Before it the counters are right:
  2550 free blocks, no block pointer, \<^verbatim>\<open>total_blocks - 10\<close> = 2550. The write of 49153
  bytes passes the checks and needs 13 blocks; its loop takes one block and decrements
  \<^verbatim>\<open>free_blocks\<close> once for each of them, but the array \<^verbatim>\<open>blocks\<close> of the inode has 12
  entries, and the thirteenth block number is stored past it. The code returns 0 with
  \<^verbatim>\<open>free_blocks\<close> = 2537 and 12 block pointers, one less than \<^verbatim>\<open>total_blocks - 10\<close>.
\<close>

theorem counter_overrun:
  "free_blocks (sb (with_a fs_h)) + int (length (all_ptrs (inode_table (with_a fs_h))))
     = total_blocks (sb (with_a fs_h)) - 10
   \<and> free_blocks (sb (with_a fs_h)) = 2550
   \<and> find_inode fs_h (with_a fs_h) ''a.txt'' = Some 0
   \<and> length (blocks (inode_table (with_a fs_h) ! 0)) = 12
   \<and> needed_blocks_of fs_h 49153 = 13
   \<and> fs_write fs_h (Some ''a.txt'') (Some (replicate 49153 7)) 49153 (with_a fs_h)
       = Inl BlocksIndexOutOfBounds"
proof -
  have c: "0 < MAX_FILES fs_h" "5 < MAX_FILENAME fs_h" by (simp_all add: fs_h_def)
  have inv: "fs_inv fs_h (with_a fs_h)" by (rule reachable_inv [OF wf_config_fs_h reachable_with_a])
  have fb: "free_blocks (sb (with_a fs_h)) = 2550"
    by (simp add: with_a_eq [OF c] fresh_superblock_def) (simp add: fs_h_def)
  have k: "find_inode fs_h (with_a fs_h) ''a.txt'' = Some 0" by (rule find_inode_with_a [OF c])
  have n: "needed_blocks_of fs_h 49153 = 13" by (simp add: needed_blocks_of_def fs_h_def)
  have l: "length (blocks (inode_table (with_a fs_h) ! 0)) = 12"
    using c by (simp add: with_a_eq [OF c]) (simp add: fs_h_def)
  have 1: "free_blocks (sb (with_a fs_h)) + int (length (all_ptrs (inode_table (with_a fs_h))))
     = total_blocks (sb (with_a fs_h)) - 10"
    using inv by (simp add: fs_inv_def core_inv_def)
  have 2: "fs_write fs_h (Some ''a.txt'') (Some (replicate 49153 7)) 49153 (with_a fs_h)
       = Inl BlocksIndexOutOfBounds"
  proof (rule fs_write_overflow [OF inv wf_config_fs_h _ _ _ k])
    show "int (needed_blocks_of fs_h 49153) \<le> free_blocks (sb (with_a fs_h))"
      by (simp add: n fb)
  qed (simp_all add: fs_h_def)
  from 1 fb k l n 2 show ?thesis by simp
qed


subsection \<open>A concrete write, evaluated\<close>

lemma list_update_replicate_0: "0 < n \<Longrightarrow> (replicate n x)[0 := y] = y # replicate (n - 1) x"
  by (cases n) simp_all

lemma free_file_blocks_zeros [simp]:
  "free_file_blocks cfg (replicate n 0) bm fb = Inr (bm, fb)"
  by (induction n) auto

lemma fs_h_simps:
  "MAX_FILES fs_h = 256" "MAX_FILENAME fs_h = 28" "MAX_BLOCKS fs_h = 2560"
  "BLOCK_SIZE fs_h = 4096" "MAX_DIRECT_BLOCKS fs_h = 12"
  by (simp_all add: fs_h_def)

lemma find_free_block_fresh:
  assumes "wf_config cfg" and "10 < MAX_BLOCKS cfg"
  shows "find_free_block cfg (fresh_bitmap cfg) = Some 10"
proof -
  have "2 \<le> BLOCK_SIZE cfg" "10 div 8 < BLOCK_SIZE cfg" using assms by (simp_all add: wf_config_def)
  from bit_is_set_fresh_bitmap [OF this] have "\<not> bit_is_set (fresh_bitmap cfg) 10" by simp
  then show ?thesis
    unfolding find_free_block_def using assms(2) by (subst find_free_block_from.simps) simp
qed

lemma find_free_block_fresh_10:
  assumes "wf_config cfg" and "11 < MAX_BLOCKS cfg"
  shows "find_free_block cfg (mark_block_used (fresh_bitmap cfg) 10) = Some 11"
proof -
  have b: "2 \<le> BLOCK_SIZE cfg" "11 div 8 < BLOCK_SIZE cfg" "10 div 8 < length (fresh_bitmap cfg)"
    using assms by (simp_all add: wf_config_def)
  from bit_is_set_fresh_bitmap [OF b(1,2)] have "\<not> bit_is_set (fresh_bitmap cfg) 11" by simp
  then have 1: "\<not> bit_is_set (mark_block_used (fresh_bitmap cfg) 10) 11"
    by (simp add: bit_is_set_mark_used [OF b(3)])
  have 2: "bit_is_set (mark_block_used (fresh_bitmap cfg) 10) 10"
    by (simp add: bit_is_set_mark_used [OF b(3)])
  have "find_free_block_from cfg (mark_block_used (fresh_bitmap cfg) 10) 11 = Some 11"
    using 1 assms(2) by (subst find_free_block_from.simps) simp
  then show ?thesis
    unfolding find_free_block_def using 2 assms(2) by (subst find_free_block_from.simps) simp
qed

lemma written_table:
  "inode_table (written fs_h) = (replicate 256 (empty_inode fs_h))[0 :=
      \<lparr>used = True, name = ''a.txt'', size_bytes = 5000, blocks = 10 # 11 # replicate 10 0\<rparr>]"
  and written_free: "free_blocks (sb (written fs_h)) = 2548"
  and written_fd: "disk_fd (written fs_h) = Some ''disk.img''"
  and written_data: "disk_data (written fs_h) ''disk.img''
      = (disk_data (with_a fs_h) ''disk.img'')
          (10 := replicate 4096 7, 11 := replicate 904 7 @ replicate 3192 0)"
proof -
  have c: "0 < MAX_FILES fs_h" "5 < MAX_FILENAME fs_h" by (simp_all add: fs_h_simps)
  have n: "needed_blocks_of fs_h 5000 = 2" by (simp add: needed_blocks_of_def fs_h_simps)
  have k: "find_inode fs_h (with_a fs_h) ''a.txt'' = Some 0" by (rule find_inode_with_a [OF c])
  have d: "disk_fd (with_a fs_h) = Some ''disk.img''" by (simp add: with_a_eq [OF c] mounted0_eq)
  have fb: "free_blocks (sb (with_a fs_h)) = 2550"
    by (simp add: with_a_eq [OF c] fresh_superblock_def fs_h_simps)
  have bm: "block_bitmap (with_a fs_h) = fresh_bitmap fs_h"
    by (simp add: with_a_eq [OF c] mounted0_eq)
  have i0: "inode_table (with_a fs_h) ! 0
      = \<lparr>used = True, name = ''a.txt'', size_bytes = 0, blocks = replicate 12 0\<rparr>"
    using c by (simp add: with_a_eq [OF c] fs_h_simps)
  have tb: "inode_table (with_a fs_h) = (replicate 256 (empty_inode fs_h))[0 :=
        \<lparr>used = True, name = ''a.txt'', size_bytes = 0, blocks = replicate 12 0\<rparr>]"
    by (simp add: with_a_eq [OF c]) (simp add: fs_h_def)
  have f10: "find_free_block fs_h (fresh_bitmap fs_h) = Some 10"
    by (rule find_free_block_fresh [OF wf_config_fs_h]) (simp add: fs_h_simps)
  have f11: "find_free_block fs_h (mark_block_used (fresh_bitmap fs_h) 10) = Some 11"
    by (rule find_free_block_fresh_10 [OF wf_config_fs_h]) (simp add: fs_h_simps)
  have al: "alloc_blocks fs_h (replicate 5000 7) 5000 2 0
      (fresh_bitmap fs_h, 2550, replicate 12 0, disk_data (with_a fs_h) ''disk.img'')
    = Inr (mark_block_used (mark_block_used (fresh_bitmap fs_h) 10) 11, 2548,
           (replicate 12 0)[0 := 10, 1 := 11],
           (disk_data (with_a fs_h) ''disk.img'')
             (10 := replicate 4096 7, 11 := replicate 904 7 @ replicate 3192 0))"
    apply (subst alloc_blocks.simps)
    apply (simp add: f10 fs_h_simps)
    apply (subst alloc_blocks.simps)
    apply (simp add: f11 fs_h_simps)
    apply (subst alloc_blocks.simps)
    apply (simp add: fs_h_simps)
    done
  have "replicate 12 (0::nat) = 0 # 0 # replicate 10 0" by (simp add: numeral_eq_Suc)
  then have tk: "take 2 ((replicate 12 (0::nat))[0 := 10, Suc 0 := 11]) = [10, 11]" by simp
  have w: "fs_write fs_h (Some ''a.txt'') (Some (replicate 5000 7)) 5000 (with_a fs_h)
    = Inr (0, (with_a fs_h)\<lparr>block_bitmap := mark_block_used (mark_block_used (fresh_bitmap fs_h) 10) 11,
                 sb := (sb (with_a fs_h))\<lparr>free_blocks := 2548\<rparr>,
                 inode_table := (inode_table (with_a fs_h))[0 :=
                    \<lparr>used = True, name = ''a.txt'', size_bytes = 5000,
                     blocks = 10 # 11 # replicate 10 0\<rparr>],
                 files := set_disk_data (with_a fs_h) ''disk.img''
                    ((disk_data (with_a fs_h) ''disk.img'')
                       (10 := replicate 4096 7, 11 := replicate 904 7 @ replicate 3192 0))\<rparr>)"
    unfolding fs_write_def
    apply (simp add: d k n fb bm i0 al Let_def fs_h_simps tk)
    done
  show "inode_table (written fs_h) = (replicate 256 (empty_inode fs_h))[0 :=
      \<lparr>used = True, name = ''a.txt'', size_bytes = 5000, blocks = 10 # 11 # replicate 10 0\<rparr>]"
    by (simp add: written_def w tb)
  show "free_blocks (sb (written fs_h)) = 2548" by (simp add: written_def w)
  show "disk_fd (written fs_h) = Some ''disk.img''" by (simp add: written_def w d)
  show "disk_data (written fs_h) ''disk.img''
      = (disk_data (with_a fs_h) ''disk.img'')
          (10 := replicate 4096 7, 11 := replicate 904 7 @ replicate 3192 0)"
  proof -
    obtain img where fa: "files (with_a fs_h) ''disk.img'' = Some img"
      by (simp add: with_a_eq [OF c] mounted0_eq)
    show ?thesis
      unfolding written_def w by (simp add: disk_data_def set_disk_data_def fa)
  qed
qed


lemma remounted_facts:
  "fs_inv fs_h (remounted fs_h)"
  "disk_fd (remounted fs_h) = Some ''disk.img''"
  "inode_table (remounted fs_h) = inode_table (written fs_h)"
  "sb (remounted fs_h) = sb (written fs_h)"
proof -
  have c: "0 < MAX_FILES fs_h" "5 < MAX_FILENAME fs_h" by (simp_all add: fs_h_simps)
  have inv: "fs_inv fs_h (written fs_h)" by (rule reachable_inv [OF wf_config_fs_h reachable_written])
  from fs_write_with_a obtain w' where
    w: "fs_write fs_h (Some ''a.txt'') (Some (replicate 5000 7)) 5000 (with_a fs_h) = Inr (0, w')"
    by blast
  then have e: "written fs_h = w'" by (simp add: written_def)
  from fs_write_keeps [OF w] have "can_open (written fs_h) = can_open (with_a fs_h)"
    by (simp add: e)
  then have co: "can_open (fs_unmount fs_h (written fs_h)) ''disk.img''"
    by (simp add: fs_unmount_def written_fd with_a_eq [OF c] mounted0_eq boot_def)
  have u: "disk_fd (fs_unmount fs_h (written fs_h)) = None"
    "block_bitmap (fs_unmount fs_h (written fs_h)) = block_bitmap (written fs_h)"
    "inode_table (fs_unmount fs_h (written fs_h)) = inode_table (written fs_h)"
    by (simp_all add: fs_unmount_def written_fd)
  have l: "length (block_bitmap (fs_unmount fs_h (written fs_h))) \<le> BLOCK_SIZE fs_h"
    "length (inode_table (fs_unmount fs_h (written fs_h))) \<le> MAX_FILES fs_h"
    using inv by (simp_all add: u fs_inv_def core_inv_def)
  from mount_after_unmount [OF inv written_fd refl u(1) co l]
  obtain w6 where m: "fs_mount fs_h ''disk.img'' (fs_unmount fs_h (written fs_h)) = (0, w6)"
    and f: "disk_fd w6 = Some ''disk.img''" "inode_table w6 = inode_table (written fs_h)"
      "sb w6 = sb (written fs_h)" "fs_inv fs_h w6"
    by blast
  have r: "remounted fs_h = w6" by (simp add: remounted_def m)
  show "fs_inv fs_h (remounted fs_h)" "disk_fd (remounted fs_h) = Some ''disk.img''"
    "inode_table (remounted fs_h) = inode_table (written fs_h)"
    "sb (remounted fs_h) = sb (written fs_h)"
    using f by (simp_all add: r)
qed

text \<open>
  The amended claim C1 at work: 5000 bytes written to the new file a.txt and read back, and
  then, in the session that has unmounted and mounted this disk again, 100 other bytes
  written over the file and read back.
\<close>

theorem write_read_roundtrip_witness:
  "(\<exists>w'. fs_write fs_h (Some ''a.txt'') (Some (replicate 5000 7)) 5000 (with_a fs_h) = Inr (0, w')
        \<and> fs_read fs_h (Some ''a.txt'') True 5000 w' = Inr (5000, replicate 5000 7))
   \<and> (\<exists>w'. fs_write fs_h (Some ''a.txt'') (Some (replicate 100 9)) 100 (remounted fs_h) = Inr (0, w')
        \<and> fs_read fs_h (Some ''a.txt'') True 100 w' = Inr (100, replicate 100 9))"
proof -
  have c: "0 < MAX_FILES fs_h" "5 < MAX_FILENAME fs_h" by (simp_all add: fs_h_def)
  have inv: "fs_inv fs_h (with_a fs_h)" by (rule reachable_inv [OF wf_config_fs_h reachable_with_a])
  have 0: "disk_fd (with_a fs_h) = Some ''disk.img''" "files (with_a fs_h) ''disk.img'' \<noteq> None"
    by (simp_all add: with_a_eq [OF c] mounted0_eq)
  have 1: "length ''a.txt'' < MAX_FILENAME fs_h" by (simp add: fs_h_def)
  have 2: "find_inode fs_h (with_a fs_h) ''a.txt'' \<noteq> None" by (simp add: find_inode_with_a [OF c])
  have 3: "(0::int) < 5000" "(5000::int) \<le> int (MAX_DIRECT_BLOCKS fs_h * BLOCK_SIZE fs_h)"
    "(5000::int) \<le> int (MAX_FILES fs_h * BLOCK_SIZE fs_h)" by (simp_all add: fs_h_def)
  have fb: "free_blocks (sb (with_a fs_h)) = int (MAX_BLOCKS fs_h) - 10"
    by (simp add: with_a_eq [OF c] fresh_superblock_def)
  then have 4: "int (needed_blocks_of fs_h 5000) \<le> free_blocks (sb (with_a fs_h))"
    by (simp add: needed_blocks_of_def fs_h_def)
  with fs_inv_free_bits [OF inv wf_config_fs_h]
  have 5: "needed_blocks_of fs_h 5000 \<le> free_bits fs_h (block_bitmap (with_a fs_h))"
    by linarith
  have 6: "nat 5000 \<le> length (replicate 5000 (7::byte))" by simp
  have first: "\<exists>w'. fs_write fs_h (Some ''a.txt'') (Some (replicate 5000 7)) 5000 (with_a fs_h)
                  = Inr (0, w')
        \<and> fs_read fs_h (Some ''a.txt'') True 5000 w' = Inr (5000, replicate 5000 7)"
    using write_read_roundtrip [OF wf_config_fs_h 0 fs_inv_c_arrays [OF inv]
        fs_inv_ptrs_in_bitmap [OF inv wf_config_fs_h] 1 2 3 4 5 6]
    by simp
  note r = remounted_facts
  from r(1,2) have r0: "files (remounted fs_h) ''disk.img'' \<noteq> None"
    by (auto simp: fs_inv_def)
  have t: "inode_table (remounted fs_h)
      = \<lparr>used = True, name = ''a.txt'', size_bytes = 5000, blocks = 10 # 11 # replicate 10 0\<rparr>
        # replicate 255 (empty_inode fs_h)"
    by (simp add: r(3) written_table list_update_replicate_0)
  have r2: "find_inode fs_h (remounted fs_h) ''a.txt'' \<noteq> None"
    by (simp add: find_inode_def t strncmp_eq_def fs_h_simps)
  have r3: "(0::int) < 100" "(100::int) \<le> int (MAX_DIRECT_BLOCKS fs_h * BLOCK_SIZE fs_h)"
    "(100::int) \<le> int (MAX_FILES fs_h * BLOCK_SIZE fs_h)" by (simp_all add: fs_h_def)
  have r4: "int (needed_blocks_of fs_h 100) \<le> free_blocks (sb (remounted fs_h))"
    by (simp add: r(4) written_free needed_blocks_of_def fs_h_simps)
  with fs_inv_free_bits [OF r(1) wf_config_fs_h]
  have r5: "needed_blocks_of fs_h 100 \<le> free_bits fs_h (block_bitmap (remounted fs_h))"
    by linarith
  have r6: "nat 100 \<le> length (replicate 100 (9::byte))" by simp
  have second: "\<exists>w'. fs_write fs_h (Some ''a.txt'') (Some (replicate 100 9)) 100 (remounted fs_h)
                  = Inr (0, w')
        \<and> fs_read fs_h (Some ''a.txt'') True 100 w' = Inr (100, replicate 100 9)"
    using write_read_roundtrip [OF wf_config_fs_h r(2) r0 fs_inv_c_arrays [OF r(1)]
        fs_inv_ptrs_in_bitmap [OF r(1) wf_config_fs_h] 1 r2 r3 r4 r5 r6]
    by simp
  from first second show ?thesis by blast
qed


subsection \<open>What fs_write leaves alone\<close>














subsection \<open>Unmounting and mounting again\<close>

lemma fs_read_cong:
  assumes "disk_fd w = Some p" and "disk_fd w' = Some p'"
    and "inode_table w' = inode_table w" and "disk_data w' p' = disk_data w p"
  shows "fs_read cfg filename buf sz w' = fs_read cfg filename buf sz w"
proof -
  have fi: "find_inode cfg w' f = find_inode cfg w f" for f
    by (simp add: find_inode_def assms(3))
  show ?thesis
    by (auto simp: fs_read_def fi assms Let_def split: option.splits)
qed

text \<open>
  Claim C6. From the unmounted state, for a path that \<^verbatim>\<open>open\<close> accepts and data \<open>X\<close> of
  a valid size (at least one byte, at most \<open>MAX_DIRECT_BLOCKS * BLOCK_SIZE\<close>), the calls
  \<^verbatim>\<open>fs_format(path); fs_mount(path); fs_create("a.txt"); fs_write("a.txt", X);
  fs_unmount(); fs_mount(path); fs_read("a.txt")\<close> all succeed and the last one returns \<open>X\<close>.
  What the second fs_mount loads is what fs_unmount stored in the disk file: it succeeds
  just as well, with the same superblock, bitmap and table as before the unmount and the
  same result of fs_read, from any unmounted state \<open>v\<close> that has these disk files, whatever
  its own superblock, bitmap and table hold (a process started later, for one). The
  constants are such that the name fits, a file may take its direct blocks from a fresh
  disk, the per-file cap is within the bound that fs_write checks, and the metadata fit
  their blocks.
\<close>

theorem persistence_roundtrip:
  assumes wf: "wf_config cfg" and lay: "layout_fits cfg"
    and cfg: "0 < MAX_FILES cfg" "5 < MAX_FILENAME cfg"
      "MAX_DIRECT_BLOCKS cfg \<le> MAX_FILES cfg" "MAX_DIRECT_BLOCKS cfg + 10 \<le> MAX_BLOCKS cfg"
    and w0: "disk_fd w0 = None" "can_open w0 path"
    and X: "0 < length X" "length X \<le> MAX_DIRECT_BLOCKS cfg * BLOCK_SIZE cfg"
  shows "\<exists>w1 w2 w3 w4.
           fs_format cfg path w0 = (0, w1)
           \<and> fs_mount cfg path w1 = (0, w2)
           \<and> fs_create cfg (Some ''a.txt'') w2 = (0, w3)
           \<and> fs_write cfg (Some ''a.txt'') (Some X) (int (length X)) w3 = Inr (0, w4)
           \<and> disk_fd (fs_unmount cfg w4) = None
           \<and> (\<exists>w6. fs_mount cfg path (fs_unmount cfg w4) = (0, w6)
                 \<and> fs_read cfg (Some ''a.txt'') True (int (length X)) w6
                     = Inr (int (length X), X))
           \<and> (\<forall>v. files v = files (fs_unmount cfg w4) \<and> disk_fd v = None \<and> can_open v path
                   \<and> length (block_bitmap v) = BLOCK_SIZE cfg
                   \<and> length (inode_table v) = MAX_FILES cfg
                \<longrightarrow> (\<exists>w6. fs_mount cfg path v = (0, w6)
                       \<and> sb w6 = sb w4 \<and> block_bitmap w6 = block_bitmap w4
                       \<and> inode_table w6 = inode_table w4
                       \<and> fs_read cfg (Some ''a.txt'') True (int (length X)) w6
                           = Inr (int (length X), X)))"
proof -
  let ?tbl = "replicate (MAX_FILES cfg) (empty_inode cfg)"
  let ?img = "\<lparr>img_sb = Some (fresh_superblock cfg), img_bitmap = fresh_bitmap cfg,
           img_inodes = ?tbl,
           img_data = (\<lambda>b. if 10 \<le> b \<and> b < MAX_BLOCKS cfg
                             then replicate (BLOCK_SIZE cfg) 0 else [])\<rparr>"
  define w1 where "w1 = w0\<lparr>sb := fresh_superblock cfg, block_bitmap := fresh_bitmap cfg,
        inode_table := ?tbl, files := (files w0)(path \<mapsto> ?img)\<rparr>"
  define w2 where "w2 = w1\<lparr>disk_fd := Some path\<rparr>"
  define w3 where "w3 = w2\<lparr>inode_table := ?tbl[0 :=
        \<lparr>used = True, name = ''a.txt'', size_bytes = 0,
         blocks = replicate (MAX_DIRECT_BLOCKS cfg) 0\<rparr>],
      sb := (fresh_superblock cfg)\<lparr>free_inodes := int (MAX_FILES cfg) - 1\<rparr>\<rparr>"
  have f: "fs_format cfg path w0 = (0, w1)"
    using w0(2) by (simp add: fs_format_def w1_def Let_def)
  have m: "fs_mount cfg path w1 = (0, w2)"
    using w0 by (simp add: fs_mount_def w1_def w2_def Let_def fresh_superblock_def)
  have c: "fs_create cfg (Some ''a.txt'') w2 = (0, w3)"
    using cfg(1,2)
    by (simp add: fs_create_def w3_def w2_def w1_def find_inode_def find_free_inode_def
        fresh_superblock_def)
  have inv3: "fs_inv cfg w3"
    by (rule fs_inv_create [OF fs_inv_mounted [OF wf f m] c])
  have k: "find_inode cfg w3 ''a.txt'' \<noteq> None"
    using cfg(1,2) by (cases "MAX_FILES cfg") (simp_all add: w3_def find_inode_def strncmp_eq_def)
  have bpos: "0 < BLOCK_SIZE cfg" using wf by (simp add: wf_config_def)
  have s: "0 < int (length X)"
    "int (length X) \<le> int (MAX_DIRECT_BLOCKS cfg * BLOCK_SIZE cfg)"
    using X by linarith+
  have "MAX_DIRECT_BLOCKS cfg * BLOCK_SIZE cfg \<le> MAX_FILES cfg * BLOCK_SIZE cfg"
    using cfg(3) by (rule mult_le_mono1)
  with X(2) have s3: "int (length X) \<le> int (MAX_FILES cfg * BLOCK_SIZE cfg)" by linarith
  from needed_blocks_bounds(2) [OF s(1) bpos]
  have "(needed_blocks_of cfg (int (length X)) - 1) * BLOCK_SIZE cfg < length X" by simp
  with X(2) have "(needed_blocks_of cfg (int (length X)) - 1) * BLOCK_SIZE cfg
          < MAX_DIRECT_BLOCKS cfg * BLOCK_SIZE cfg"
    by linarith
  then have "needed_blocks_of cfg (int (length X)) - 1 < MAX_DIRECT_BLOCKS cfg" by simp
  then have "needed_blocks_of cfg (int (length X)) + 10 \<le> MAX_BLOCKS cfg" using cfg(4) by simp
  then have sp: "int (needed_blocks_of cfg (int (length X))) \<le> free_blocks (sb w3)"
    by (simp add: w3_def fresh_superblock_def)
  from write_then_read [OF wf inv3 _ k s s3 sp, of X] cfg(2)
  obtain w4 where wr: "fs_write cfg (Some ''a.txt'') (Some X) (int (length X)) w3 = Inr (0, w4)"
    and inv4: "fs_inv cfg w4"
    and rd: "fs_read cfg (Some ''a.txt'') True (int (length X)) w4 = Inr (int (length X), X)"
    by auto
  from fs_write_keeps [OF wr] w0(2)
  have k4: "disk_fd w4 = Some path" "can_open w4 path"
    by (simp_all add: w3_def w2_def w1_def)
  let ?u = "fs_unmount cfg w4"
  have u: "disk_fd ?u = None" "can_open ?u path" "block_bitmap ?u = block_bitmap w4"
    "inode_table ?u = inode_table w4"
    using k4 by (simp_all add: fs_unmount_def)
  have l4: "length (block_bitmap w4) = BLOCK_SIZE cfg" "length (inode_table w4) = MAX_FILES cfg"
    using inv4 by (simp_all add: fs_inv_def core_inv_def)
  have rem: "\<exists>w6. fs_mount cfg path v = (0, w6)
                 \<and> sb w6 = sb w4 \<and> block_bitmap w6 = block_bitmap w4
                 \<and> inode_table w6 = inode_table w4
                 \<and> fs_read cfg (Some ''a.txt'') True (int (length X)) w6
                     = Inr (int (length X), X)"
    if v: "files v = files ?u" "disk_fd v = None" "can_open v path"
      "length (block_bitmap v) = BLOCK_SIZE cfg" "length (inode_table v) = MAX_FILES cfg"
    for v
  proof -
    have le: "length (block_bitmap v) \<le> BLOCK_SIZE cfg" "length (inode_table v) \<le> MAX_FILES cfg"
      using v(4,5) by simp_all
    from mount_after_unmount [OF inv4 k4(1) v(1,2,3) le]
    obtain w6 where r: "fs_mount cfg path v = (0, w6)" "disk_fd w6 = Some path"
      "inode_table w6 = inode_table w4" "disk_data w6 path = disk_data w4 path"
      "sb w6 = sb w4" "block_bitmap w6 = block_bitmap w4"
      by blast
    from fs_read_cong [OF k4(1) r(2,3,4)] rd
    have "fs_read cfg (Some ''a.txt'') True (int (length X)) w6 = Inr (int (length X), X)"
      by simp
    with r show ?thesis by blast
  qed
  from rem [of ?u] u l4
  have own: "\<exists>w6. fs_mount cfg path ?u = (0, w6)
                 \<and> fs_read cfg (Some ''a.txt'') True (int (length X)) w6
                     = Inr (int (length X), X)"
    by auto
  from rem have all: "\<forall>v. files v = files ?u \<and> disk_fd v = None \<and> can_open v path
                   \<and> length (block_bitmap v) = BLOCK_SIZE cfg
                   \<and> length (inode_table v) = MAX_FILES cfg
                \<longrightarrow> (\<exists>w6. fs_mount cfg path v = (0, w6)
                       \<and> sb w6 = sb w4 \<and> block_bitmap w6 = block_bitmap w4
                       \<and> inode_table w6 = inode_table w4
                       \<and> fs_read cfg (Some ''a.txt'') True (int (length X)) w6
                           = Inr (int (length X), X))"
    by blast
  from f m c wr u(1) own all show ?thesis by blast
qed

text \<open>
  The claim at work on the constants of \<open>fs_h\<close>, with 5000 bytes: the sequence as the
  claim has it, and the same disk mounted and read by a process started after the
  unmount.
\<close>

theorem persistence_roundtrip_witness:
  "\<exists>w1 w2 w3 w4 w6 w7.
     fs_format fs_h ''disk.img'' (boot fs_h) = (0, w1)
     \<and> fs_mount fs_h ''disk.img'' w1 = (0, w2)
     \<and> fs_create fs_h (Some ''a.txt'') w2 = (0, w3)
     \<and> fs_write fs_h (Some ''a.txt'') (Some (replicate 5000 7)) 5000 w3 = Inr (0, w4)
     \<and> fs_mount fs_h ''disk.img'' (fs_unmount fs_h w4) = (0, w6)
     \<and> fs_read fs_h (Some ''a.txt'') True 5000 w6 = Inr (5000, replicate 5000 7)
     \<and> fs_mount fs_h ''disk.img'' (restarted fs_h (fs_unmount fs_h w4)) = (0, w7)
     \<and> inode_table w7 = inode_table w4
     \<and> fs_read fs_h (Some ''a.txt'') True 5000 w7 = Inr (5000, replicate 5000 7)"
proof -
  have 1: "disk_fd (boot fs_h) = None" "can_open (boot fs_h) ''disk.img''"
    by (simp_all add: boot_def)
  have lay: "layout_fits fs_h" by (simp add: layout_fits_def inode_size_def fs_h_simps)
  have c: "0 < MAX_FILES fs_h" "5 < MAX_FILENAME fs_h"
    "MAX_DIRECT_BLOCKS fs_h \<le> MAX_FILES fs_h" "MAX_DIRECT_BLOCKS fs_h + 10 \<le> MAX_BLOCKS fs_h"
    by (simp_all add: fs_h_simps)
  have x: "0 < length (replicate 5000 (7::byte))"
    "length (replicate 5000 (7::byte)) \<le> MAX_DIRECT_BLOCKS fs_h * BLOCK_SIZE fs_h"
    by (simp_all add: fs_h_simps)
  from persistence_roundtrip [OF wf_config_fs_h lay c 1 x]
  obtain w1 w2 w3 w4 w6 where
    a: "fs_format fs_h ''disk.img'' (boot fs_h) = (0, w1)"
      "fs_mount fs_h ''disk.img'' w1 = (0, w2)"
      "fs_create fs_h (Some ''a.txt'') w2 = (0, w3)"
      "fs_write fs_h (Some ''a.txt'') (Some (replicate 5000 7)) 5000 w3 = Inr (0, w4)"
      "fs_mount fs_h ''disk.img'' (fs_unmount fs_h w4) = (0, w6)"
      "fs_read fs_h (Some ''a.txt'') True 5000 w6 = Inr (5000, replicate 5000 7)"
    and all: "\<forall>v. files v = files (fs_unmount fs_h w4) \<and> disk_fd v = None
                   \<and> can_open v ''disk.img''
                   \<and> length (block_bitmap v) = BLOCK_SIZE fs_h
                   \<and> length (inode_table v) = MAX_FILES fs_h
                \<longrightarrow> (\<exists>w6. fs_mount fs_h ''disk.img'' v = (0, w6)
                       \<and> sb w6 = sb w4 \<and> block_bitmap w6 = block_bitmap w4
                       \<and> inode_table w6 = inode_table w4
                       \<and> fs_read fs_h (Some ''a.txt'') True 5000 w6
                           = Inr (5000, replicate 5000 7))"
    by (simp only: length_replicate of_nat_numeral) (elim exE conjE, rule that; assumption)
  let ?v = "restarted fs_h (fs_unmount fs_h w4)"
  have "files ?v = files (fs_unmount fs_h w4) \<and> disk_fd ?v = None \<and> can_open ?v ''disk.img''
      \<and> length (block_bitmap ?v) = BLOCK_SIZE fs_h \<and> length (inode_table ?v) = MAX_FILES fs_h"
    by (simp add: restarted_def boot_def)
  with all obtain w7 where
    b: "fs_mount fs_h ''disk.img'' ?v = (0, w7)" "inode_table w7 = inode_table w4"
      "fs_read fs_h (Some ''a.txt'') True 5000 w7 = Inr (5000, replicate 5000 7)"
    by blast
  from a b show ?thesis by blast
qed

end
